theory Spec2Isabelle
  imports Complex_Main
begin

section \<open>The NLI service (infra/nli-service/main.py)\<close>

text \<open>
  The service loads a sequence-classification checkpoint once, and answers \<open>POST /nli\<close> with
  one label, confidence and score table per (premise, hypothesis) pair, and \<open>GET /health\<close>
  with its readiness. The tokenizer, the checkpoint and torch are libraries outside the
  repository: they enter the model as values (a tokenizer function, a forward function, the
  answer of \<open>torch.cuda.is_available()\<close>). The float32 entries of tensors are read as real
  numbers, and \<open>torch.softmax\<close> and \<open>torch.argmax\<close> as their mathematical definitions
  (normalised exponential; first index of a maximal entry).
\<close>

subsection \<open>Python values and errors\<close>

datatype py_error =
    HTTPException nat string
  | IndexError
  | KeyError
  | TypeError
  | ValueError
  | RuntimeError
  | OSError

text \<open>\<open>range(start, stop, step)\<close>: a zero step raises ValueError.\<close>

definition py_range :: "int \<Rightarrow> int \<Rightarrow> int \<Rightarrow> int list option" where
  "py_range start stop step =
     (if step = 0 then None
      else if 0 < step then
        Some (map (\<lambda>k. start + int k * step) [0 ..< nat ((stop - start + step - 1) div step)])
      else
        Some (map (\<lambda>k. start + int k * step) [0 ..< nat ((start - stop - step - 1) div (- step))]))"

text \<open>\<open>xs[lo:hi]\<close>: negative bounds count from the end, and both are clamped to the list.\<close>

definition py_bound :: "'a list \<Rightarrow> int \<Rightarrow> nat" where
  "py_bound xs i =
     (let n = int (length xs); j = (if i < 0 then i + n else i)
      in nat (max 0 (min n j)))"

definition py_slice :: "'a list \<Rightarrow> int \<Rightarrow> int \<Rightarrow> 'a list" where
  "py_slice xs lo hi = take (py_bound xs hi - py_bound xs lo) (drop (py_bound xs lo) xs)"

text \<open>
  \<open>str.lower()\<close> on the letters A to Z; every other character is kept. A string is a list
  of bytes here, and no character outside ASCII lowers to a letter of \<open>deberta\<close>, so the
  test \<open>"deberta" in NLI_MODEL.lower()\<close> comes out the same.
\<close>

definition lower_char :: "char \<Rightarrow> char" where
  "lower_char c =
     (let n = (of_char c :: nat) in if 65 \<le> n \<and> n \<le> 90 then char_of (n + 32) else c)"

definition lower :: "string \<Rightarrow> string" where
  "lower s = map lower_char s"

fun startswith :: "string \<Rightarrow> string \<Rightarrow> bool" where
  "startswith s [] = True"
| "startswith [] (c # cs) = False"
| "startswith (d # ds) (c # cs) = (d = c \<and> startswith ds cs)"

text \<open>\<open>sub in s\<close> for strings.\<close>

fun contains :: "string \<Rightarrow> string \<Rightarrow> bool" where
  "contains sub [] = (sub = [])"
| "contains sub (c # cs) = (startswith (c # cs) sub \<or> contains sub cs)"

text \<open>A dict keeps insertion order; storing under a present key replaces the value in place.\<close>

fun dict_set :: "('k \<times> 'v) list \<Rightarrow> 'k \<Rightarrow> 'v \<Rightarrow> ('k \<times> 'v) list" where
  "dict_set [] k v = [(k, v)]"
| "dict_set (p # ps) k v = (if fst p = k then (k, v) # ps else p # dict_set ps k v)"

subsection \<open>Configuration and label maps\<close>

record config =
  NLI_MODEL :: string
  DEVICE :: string
  MAX_LENGTH :: int
  BATCH_SIZE :: int

definition default_config :: config where
  "default_config =
     \<lparr>NLI_MODEL = ''microsoft/deberta-v3-large-mnli'', DEVICE = ''cpu'',
      MAX_LENGTH = 256, BATCH_SIZE = 16\<rparr>"

type_synonym labelmap = "(nat \<times> string) list"

definition LABEL_MAP :: labelmap where
  "LABEL_MAP = [(0, ''entailment''), (1, ''neutral''), (2, ''contradiction'')]"

definition DEBERTA_LABEL_MAP :: labelmap where
  "DEBERTA_LABEL_MAP = [(0, ''contradiction''), (1, ''neutral''), (2, ''entailment'')]"

definition canonical_labels :: "string set" where
  "canonical_labels = {''entailment'', ''neutral'', ''contradiction''}"

subsection \<open>The libraries and the process state\<close>

datatype device = Cpu | Cuda

fun device_name :: "device \<Rightarrow> string" where
  "device_name Cpu = ''cpu''"
| "device_name Cuda = ''cuda''"

text \<open>
  A tokenizer maps the premises, the hypotheses and \<open>max_length\<close> to the encoded batch. A
  loaded checkpoint maps an encoded batch to its logits, one row per pair, or raises; it also
  knows the device it was placed on.
\<close>

type_synonym 'enc tokenizer_fn = "string list \<Rightarrow> string list \<Rightarrow> int \<Rightarrow> 'enc"

record 'enc nli_model =
  forward :: "'enc \<Rightarrow> py_error + real list list"
  placement :: device

record 'enc hub =
  tokenizer_from_pretrained :: "string \<Rightarrow> py_error + 'enc tokenizer_fn"
  model_from_pretrained :: "string \<Rightarrow> py_error + ('enc \<Rightarrow> py_error + real list list)"
  cuda_is_available :: bool

record 'enc service_state =
  model :: "'enc nli_model option"
  tokenizer :: "'enc tokenizer_fn option"
  label_map :: "labelmap option"

definition initial_state :: "'enc service_state" where
  "initial_state = \<lparr>model = None, tokenizer = None, label_map = None\<rparr>"

text \<open>\<open>model.cuda()\<close> places the checkpoint on the accelerator; its outputs are the same.\<close>

definition cuda :: "'enc nli_model \<Rightarrow> 'enc nli_model" where
  "cuda m = m\<lparr>placement := Cuda\<rparr>"

text \<open>
  \<open>load_model\<close>: a failure of either \<open>from_pretrained\<close> is raised; \<open>from_pretrained\<close> leaves
  the checkpoint on the general-purpose processor.
\<close>

definition load_model ::
  "'enc hub \<Rightarrow> config \<Rightarrow> 'enc service_state \<Rightarrow> py_error + 'enc service_state" where
  "load_model h cfg st =
     (case tokenizer_from_pretrained h (NLI_MODEL cfg) of
        Inl e \<Rightarrow> Inl e
      | Inr tok \<Rightarrow>
         (case model_from_pretrained h (NLI_MODEL cfg) of
            Inl e \<Rightarrow> Inl e
          | Inr f \<Rightarrow>
             (let m0 = \<lparr>forward = f, placement = Cpu\<rparr>;
                  m = (if DEVICE cfg = ''cuda'' \<and> cuda_is_available h then cuda m0 else m0);
                  lm = (if contains ''deberta'' (lower (NLI_MODEL cfg))
                        then DEBERTA_LABEL_MAP else LABEL_MAP)
              in Inr (st\<lparr>model := Some m, tokenizer := Some tok, label_map := Some lm\<rparr>))))"

text \<open>The device the loaded checkpoint runs on, by name.\<close>

definition active_device :: "'enc service_state \<Rightarrow> string option" where
  "active_device st = map_option (\<lambda>m. device_name (placement m)) (model st)"

subsection \<open>Requests and responses\<close>

record NliPair =
  premise :: string
  hypothesis :: string

record NliRequest =
  pairs :: "NliPair list"
  req_model :: "string option"

record NliResultItem =
  label :: string
  confidence :: real
  scores :: "(string \<times> real) list"

record NliResponse =
  results :: "NliResultItem list"

record HealthResponse =
  status :: string
  health_model :: string
  device :: string

text \<open>The status line of a reply: an uncaught exception that is no HTTPException is a 500.\<close>

fun status_code :: "py_error + 'a \<Rightarrow> nat" where
  "status_code (Inr r) = 200"
| "status_code (Inl (HTTPException c d)) = c"
| "status_code (Inl e) = 500"

subsection \<open>Health\<close>

definition health_check :: "'enc service_state \<Rightarrow> config \<Rightarrow> py_error + HealthResponse" where
  "health_check st cfg =
     (if model st = None then Inl (HTTPException 503 ''Model not loaded'')
      else Inr \<lparr>status = ''healthy'', health_model = NLI_MODEL cfg, device = DEVICE cfg\<rparr>)"

subsection \<open>The batch classifier\<close>

definition softmax :: "real list \<Rightarrow> real list" where
  "softmax row = map (\<lambda>x. exp x / (\<Sum>y\<leftarrow>row. exp y)) row"

fun argmax_from :: "nat \<Rightarrow> real \<Rightarrow> nat \<Rightarrow> real list \<Rightarrow> nat" where
  "argmax_from best bv i [] = best"
| "argmax_from best bv i (x # xs) =
     (if bv < x then argmax_from i x (Suc i) xs else argmax_from best bv (Suc i) xs)"

fun argmax :: "real list \<Rightarrow> nat option" where
  "argmax [] = None"
| "argmax (x # xs) = Some (argmax_from 0 x 1 xs)"

text \<open>
  The comprehension \<open>{label_map[i]: float(probs[idx][i]) for i in range(len(label_map))}\<close>:
  the key is looked up first, then the row, then the entry.
\<close>

fun prob_dict ::
  "labelmap \<Rightarrow> real list list \<Rightarrow> nat \<Rightarrow> nat list \<Rightarrow> (string \<times> real) list
     \<Rightarrow> py_error + (string \<times> real) list" where
  "prob_dict lm probs idx [] d = Inr d"
| "prob_dict lm probs idx (i # rest) d =
     (case map_of lm i of
        None \<Rightarrow> Inl KeyError
      | Some l \<Rightarrow>
         if \<not> idx < length probs then Inl IndexError
         else if \<not> i < length (probs ! idx) then Inl IndexError
         else prob_dict lm probs idx rest (dict_set d l (probs ! idx ! i)))"

text \<open>The body of the loop over \<open>idx\<close>: one result, or the exception it raises.\<close>

definition result_item :: "labelmap \<Rightarrow> real list list \<Rightarrow> nat \<Rightarrow> py_error + NliResultItem" where
  "result_item lm probs idx =
     (case prob_dict lm probs idx [0 ..< length lm] [] of
        Inl e \<Rightarrow> Inl e
      | Inr d \<Rightarrow>
         if \<not> idx < length probs then Inl IndexError
         else
           (case argmax (probs ! idx) of
              None \<Rightarrow> Inl RuntimeError
            | Some best_idx \<Rightarrow>
               (case map_of lm best_idx of
                  None \<Rightarrow> Inl KeyError
                | Some best_label \<Rightarrow>
                    Inr \<lparr>label = best_label, confidence = probs ! idx ! best_idx,
                         scores = d\<rparr>)))"

fun batch_loop ::
  "labelmap \<Rightarrow> real list list \<Rightarrow> nat list \<Rightarrow> NliResultItem list
     \<Rightarrow> py_error + NliResultItem list" where
  "batch_loop lm probs [] res = Inr res"
| "batch_loop lm probs (idx # rest) res =
     (case result_item lm probs idx of
        Inl e \<Rightarrow> Inl e
      | Inr r \<Rightarrow> batch_loop lm probs rest (res @ [r]))"

text \<open>
  \<open>classify_batch\<close>, lines 188 to 210: the fields are cut to \<open>MAX_LENGTH\<close> characters, the
  batch is tokenized as a whole and sent through the checkpoint in one forward pass, and the
  logits are turned into probabilities row by row. Calling the tokenizer or the model while
  it is None is a TypeError. Moving the encoded batch to the accelerator leaves its values
  as they are.
\<close>

definition batch_probs ::
  "'enc service_state \<Rightarrow> config \<Rightarrow> NliPair list \<Rightarrow> py_error + real list list" where
  "batch_probs st cfg ps =
     (let premises = map (\<lambda>p. py_slice (premise p) 0 (MAX_LENGTH cfg)) ps;
          hypotheses = map (\<lambda>p. py_slice (hypothesis p) 0 (MAX_LENGTH cfg)) ps
      in case tokenizer st of
           None \<Rightarrow> Inl TypeError
         | Some tok \<Rightarrow>
            (let inputs = tok premises hypotheses (MAX_LENGTH cfg)
             in case model st of
                  None \<Rightarrow> Inl TypeError
                | Some m \<Rightarrow>
                   (case forward m inputs of
                      Inl e \<Rightarrow> Inl e
                    | Inr logits \<Rightarrow> Inr (map softmax logits))))"

text \<open>
  \<open>classify_batch\<close>, lines 212 to 231: one result per index of the batch. \<open>len(label_map)\<close>
  on None is a TypeError, met only when the loop body runs.
\<close>

definition classify_batch ::
  "'enc service_state \<Rightarrow> config \<Rightarrow> NliPair list \<Rightarrow> py_error + NliResultItem list" where
  "classify_batch st cfg ps =
     (case batch_probs st cfg ps of
        Inl e \<Rightarrow> Inl e
      | Inr probs \<Rightarrow>
         if ps = [] then Inr []
         else
           (case label_map st of
              None \<Rightarrow> Inl TypeError
            | Some lm \<Rightarrow> batch_loop lm probs [0 ..< length ps] []))"

subsection \<open>The request handler\<close>

text \<open>
  The loop over the batch starts. Beside the results it returns the batches that were handed
  to \<open>classify_batch\<close>, in order: the compute the request caused.
\<close>

fun nli_loop ::
  "'enc service_state \<Rightarrow> config \<Rightarrow> NliPair list \<Rightarrow> int list \<Rightarrow> NliResultItem list
     \<Rightarrow> NliPair list list \<Rightarrow> NliPair list list \<times> (py_error + NliResultItem list)" where
  "nli_loop st cfg ps [] res calls = (calls, Inr res)"
| "nli_loop st cfg ps (i # rest) res calls =
     (let batch = py_slice ps i (i + BATCH_SIZE cfg)
      in case classify_batch st cfg batch of
           Inl e \<Rightarrow> (calls @ [batch], Inl e)
         | Inr batch_results \<Rightarrow> nli_loop st cfg ps rest (res @ batch_results) (calls @ [batch]))"

definition classify_nli ::
  "'enc service_state \<Rightarrow> config \<Rightarrow> NliRequest
     \<Rightarrow> NliPair list list \<times> (py_error + NliResponse)" where
  "classify_nli st cfg request =
     (if model st = None \<or> tokenizer st = None then
        ([], Inl (HTTPException 503 ''Model not loaded''))
      else if pairs request = [] then ([], Inr \<lparr>results = []\<rparr>)
      else if length (pairs request) > 100 then
        ([], Inl (HTTPException 400 ''Maximum 100 pairs per request''))
      else
        (case py_range 0 (int (length (pairs request))) (BATCH_SIZE cfg) of
           None \<Rightarrow> ([], Inl ValueError)
         | Some starts \<Rightarrow>
            (case nli_loop st cfg (pairs request) starts [] [] of
               (calls, Inl e) \<Rightarrow> (calls, Inl e)
             | (calls, Inr rs) \<Rightarrow> (calls, Inr \<lparr>results = rs\<rparr>))))"

subsection \<open>The process: startup, then requests\<close>

datatype request = Nli NliRequest | Health

datatype reply =
    NliReply "py_error + NliResponse"
  | HealthReply "py_error + HealthResponse"

fun handle :: "'enc service_state \<Rightarrow> config \<Rightarrow> request \<Rightarrow> reply" where
  "handle st cfg (Nli r) = NliReply (snd (classify_nli st cfg r))"
| "handle st cfg Health = HealthReply (health_check st cfg)"

text \<open>
  \<open>lifespan\<close> runs \<open>load_model\<close> before the first request is admitted; no handler assigns a
  global, so every request reads the state that \<open>load_model\<close> left.
\<close>

definition lifespan :: "'enc hub \<Rightarrow> config \<Rightarrow> request list \<Rightarrow> py_error + reply list" where
  "lifespan h cfg reqs =
     (case load_model h cfg initial_state of
        Inl e \<Rightarrow> Inl e
      | Inr st \<Rightarrow> Inr (map (handle st cfg) reqs))"

subsection \<open>What the service expects of the libraries\<close>

text \<open>
  The checkpoint is a three-way classifier: every row of logits has three entries.
\<close>

definition three_classes :: "'enc nli_model \<Rightarrow> bool" where
  "three_classes m = (\<forall>enc lg. forward m enc = Inr lg \<longrightarrow> (\<forall>row \<in> set lg. length row = 3))"

text \<open>
  The forward pass over a tokenized batch does not fail and yields one row per pair.
\<close>

definition one_row_per_pair :: "'enc tokenizer_fn \<Rightarrow> 'enc nli_model \<Rightarrow> int \<Rightarrow> bool" where
  "one_row_per_pair tok m n =
     (\<forall>prems hyps. length prems = length hyps \<longrightarrow>
        (\<exists>lg. forward m (tok prems hyps n) = Inr lg \<and> length lg = length prems))"

text \<open>
  The logits of a pair do not depend on the other pairs of its batch (padding is masked):
  they are \<open>row premise hypothesis\<close>.
\<close>

definition pairwise ::
  "'enc tokenizer_fn \<Rightarrow> 'enc nli_model \<Rightarrow> int \<Rightarrow> (string \<Rightarrow> string \<Rightarrow> real list) \<Rightarrow> bool" where
  "pairwise tok m n row =
     (\<forall>prems hyps. length prems = length hyps \<longrightarrow>
        forward m (tok prems hyps n) = Inr (map (\<lambda>(p, h). row p h) (zip prems hyps)))"

subsection \<open>Running a list of fallible steps\<close>

text \<open>
  The first exception of a list of outcomes, or all their values: what a Python loop that
  appends one outcome after the other leaves behind.
\<close>

fun collect :: "('e + 'a) list \<Rightarrow> 'e + 'a list" where
  "collect [] = Inr []"
| "collect (x # xs) =
     (case x of
        Inl e \<Rightarrow> Inl e
      | Inr a \<Rightarrow> (case collect xs of Inl e \<Rightarrow> Inl e | Inr as \<Rightarrow> Inr (a # as)))"

subsection \<open>A stand-in for the libraries\<close>

text \<open>
  A small tokenizer and checkpoint to run the service on: the encoded batch is the list of
  (premise, hypothesis) pairs, and the logits of a pair depend on which of the two is longer.
\<close>

type_synonym stub_enc = "(string \<times> string) list"

definition stub_tokenizer :: "stub_enc tokenizer_fn" where
  "stub_tokenizer premises hypotheses max_length = zip premises hypotheses"

definition stub_forward :: "stub_enc \<Rightarrow> py_error + real list list" where
  "stub_forward enc =
     Inr (map (\<lambda>(p, h). if length p < length h then [0, ln 2, 0] else [ln 2, 0, 0]) enc)"

definition stub_hub :: "bool \<Rightarrow> stub_enc hub" where
  "stub_hub avail =
     \<lparr>tokenizer_from_pretrained = (\<lambda>name. Inr stub_tokenizer),
      model_from_pretrained = (\<lambda>name. Inr stub_forward),
      cuda_is_available = avail\<rparr>"

definition stub_state :: "device \<Rightarrow> stub_enc service_state" where
  "stub_state d =
     \<lparr>model = Some \<lparr>forward = stub_forward, placement = d\<rparr>,
      tokenizer = Some stub_tokenizer, label_map = Some DEBERTA_LABEL_MAP\<rparr>"


text \<open>The logits the stand-in computes for one (premise, hypothesis) pair.\<close>

definition stub_row :: "string \<Rightarrow> string \<Rightarrow> real list" where
  "stub_row p h = (if length p < length h then [0, ln 2, 0] else [ln 2, 0, 0])"


definition batch_aware_forward :: "stub_enc \<Rightarrow> py_error + real list list" where
  "batch_aware_forward enc =
     Inr (map (\<lambda>(p, h). if length enc < 2 then [0, ln 2, 0] else [ln 2, 0, 0]) enc)"

definition hub_with :: "(stub_enc \<Rightarrow> py_error + real list list) \<Rightarrow> stub_enc hub" where
  "hub_with f =
     \<lparr>tokenizer_from_pretrained = (\<lambda>name. Inr stub_tokenizer),
      model_from_pretrained = (\<lambda>name. Inr f),
      cuda_is_available = False\<rparr>"

definition state_with :: "(stub_enc \<Rightarrow> py_error + real list list) \<Rightarrow> stub_enc service_state" where
  "state_with f =
     \<lparr>model = Some \<lparr>forward = f, placement = Cpu\<rparr>,
      tokenizer = Some stub_tokenizer, label_map = Some DEBERTA_LABEL_MAP\<rparr>"

section \<open>Properties\<close>

subsection \<open>Facts about the stand-in and the default configuration\<close>

lemma default_config_sel:
  "NLI_MODEL default_config = ''microsoft/deberta-v3-large-mnli''"
  "DEVICE default_config = ''cpu''"
  "MAX_LENGTH default_config = 256"
  "BATCH_SIZE default_config = 16"
  by (simp_all add: default_config_def)

lemma default_model_is_deberta:
  "contains ''deberta'' (lower ''microsoft/deberta-v3-large-mnli'')"
  by code_simp

lemma load_model_stub:
  "load_model (stub_hub a) (default_config\<lparr>DEVICE := d\<rparr>) initial_state =
     Inr (stub_state (if d = ''cuda'' \<and> a then Cuda else Cpu))"
  using default_model_is_deberta
  by (simp add: load_model_def stub_hub_def stub_state_def initial_state_def
      default_config_sel cuda_def Let_def)

lemma stub_state_ready:
  "model (stub_state d) \<noteq> None" "tokenizer (stub_state d) \<noteq> None"
  by (simp_all add: stub_state_def)

subsection \<open>Fallible loops\<close>

lemma collect_map_Inr: "collect (map Inr ys) = Inr ys"
  by (induction ys) simp_all

lemma collect_InrD: "collect xs = Inr ys \<Longrightarrow> xs = map Inr ys"
  by (induction xs arbitrary: ys) (auto split: sum.splits)

lemma collect_Inr_iff: "collect xs = Inr ys \<longleftrightarrow> xs = map Inr ys"
  using collect_map_Inr collect_InrD by metis

lemma collect_append:
  "collect (xs @ ys) =
     (case collect xs of
        Inl e \<Rightarrow> Inl e
      | Inr as \<Rightarrow> (case collect ys of Inl e \<Rightarrow> Inl e | Inr bs \<Rightarrow> Inr (as @ bs)))"
  by (induction xs) (auto split: sum.splits)

lemma collect_concat:
  "(case collect (map (\<lambda>c. collect (map F c)) cs) of
      Inl e \<Rightarrow> Inl e | Inr rss \<Rightarrow> Inr (concat rss))
   = collect (map F (concat cs))"
  by (induction cs) (auto simp add: collect_append split: sum.splits)

lemma batch_loop_collect:
  "batch_loop lm probs idxs res =
     (case collect (map (result_item lm probs) idxs) of
        Inl e \<Rightarrow> Inl e | Inr rs \<Rightarrow> Inr (res @ rs))"
  by (induction idxs arbitrary: res) (auto split: sum.splits)

lemma nli_loop_snd:
  "snd (nli_loop st cfg ps starts res calls) =
     (case collect (map (\<lambda>i. classify_batch st cfg (py_slice ps i (i + BATCH_SIZE cfg))) starts) of
        Inl e \<Rightarrow> Inl e | Inr rss \<Rightarrow> Inr (res @ concat rss))"
  by (induction starts arbitrary: res calls) (auto simp add: Let_def split: sum.splits)

lemma nli_loop_fst:
  "collect (map (\<lambda>i. classify_batch st cfg (py_slice ps i (i + BATCH_SIZE cfg))) starts) = Inr rss
   \<Longrightarrow> fst (nli_loop st cfg ps starts res calls)
       = calls @ map (\<lambda>i. py_slice ps i (i + BATCH_SIZE cfg)) starts"
  by (induction starts arbitrary: res calls rss) (auto simp add: Let_def split: sum.splits)

subsection \<open>The first maximal index\<close>

lemma argmax_from_spec:
  assumes "i = length pre" "best < i" "bv = (pre @ xs) ! best"
    "\<forall>j<i. (pre @ xs) ! j \<le> bv"
  shows "argmax_from best bv i xs < length (pre @ xs)
     \<and> (\<forall>j<length (pre @ xs). (pre @ xs) ! j \<le> (pre @ xs) ! argmax_from best bv i xs)"
  using assms
proof (induction xs arbitrary: best bv i pre)
  case Nil
  then show ?case by simp
next
  case (Cons x xs)
  have full: "pre @ x # xs = (pre @ [x]) @ xs" by simp
  show ?case
  proof (cases "bv < x")
    case True
    have "argmax_from i x (Suc i) xs < length ((pre @ [x]) @ xs)
     \<and> (\<forall>j<length ((pre @ [x]) @ xs). ((pre @ [x]) @ xs) ! j \<le> ((pre @ [x]) @ xs) ! argmax_from i x (Suc i) xs)"
    proof (rule Cons.IH)
      show "Suc i = length (pre @ [x])" using Cons.prems by simp
      show "i < Suc i" by simp
      show "x = ((pre @ [x]) @ xs) ! i" using Cons.prems by (simp add: nth_append)
      show "\<forall>j<Suc i. ((pre @ [x]) @ xs) ! j \<le> x"
      proof (intro allI impI)
        fix j assume "j < Suc i"
        show "((pre @ [x]) @ xs) ! j \<le> x"
        proof (cases "j < i")
          case True
          with Cons.prems have "(pre @ x # xs) ! j \<le> bv" by blast
          with \<open>bv < x\<close> show ?thesis by simp
        next
          case False
          with \<open>j < Suc i\<close> have "j = i" by simp
          with Cons.prems show ?thesis by (simp add: nth_append)
        qed
      qed
    qed
    with True show ?thesis by simp
  next
    case False
    have "argmax_from best bv (Suc i) xs < length ((pre @ [x]) @ xs)
     \<and> (\<forall>j<length ((pre @ [x]) @ xs). ((pre @ [x]) @ xs) ! j \<le> ((pre @ [x]) @ xs) ! argmax_from best bv (Suc i) xs)"
    proof (rule Cons.IH)
      show "Suc i = length (pre @ [x])" using Cons.prems by simp
      show "best < Suc i" using Cons.prems by simp
      show "bv = ((pre @ [x]) @ xs) ! best" using Cons.prems by simp
      show "\<forall>j<Suc i. ((pre @ [x]) @ xs) ! j \<le> bv"
      proof (intro allI impI)
        fix j assume "j < Suc i"
        show "((pre @ [x]) @ xs) ! j \<le> bv"
        proof (cases "j < i")
          case True
          with Cons.prems show ?thesis by simp
        next
          case False
          with \<open>j < Suc i\<close> have "j = i" by simp
          with Cons.prems \<open>\<not> bv < x\<close> show ?thesis by (simp add: nth_append)
        qed
      qed
    qed
    with False show ?thesis by simp
  qed
qed

lemma argmax_spec:
  assumes "argmax row = Some k"
  shows "k < length row \<and> (\<forall>j<length row. row ! j \<le> row ! k)"
proof (cases row)
  case Nil
  with assms show ?thesis by simp
next
  case (Cons x xs)
  have "argmax_from 0 x 1 xs < length ([x] @ xs)
     \<and> (\<forall>j<length ([x] @ xs). ([x] @ xs) ! j \<le> ([x] @ xs) ! argmax_from 0 x 1 xs)"
    by (rule argmax_from_spec) simp_all
  with Cons assms show ?thesis by auto
qed

lemma argmax_Some: "row \<noteq> [] \<Longrightarrow> \<exists>k. argmax row = Some k"
  by (cases row) simp_all

subsection \<open>Slices and batch starts\<close>

lemma py_slice_nat: "py_slice xs (int lo) (int hi) = take (hi - lo) (drop lo xs)"
proof (cases "lo < length xs")
  case True
  then show ?thesis
    by (cases "hi \<le> length xs") (simp_all add: py_slice_def py_bound_def Let_def min_def)
next
  case False
  then show ?thesis by (simp add: py_slice_def py_bound_def Let_def)
qed

lemma py_range_pos:
  "0 < b \<Longrightarrow> py_range 0 (int n) (int b) = Some (map (\<lambda>k. int (k * b)) [0 ..< (n + b - 1) div b])"
proof -
  assume b: "0 < b"
  have "(int n + int b - 1) div int b = int ((n + b - 1) div b)"
    using b by (simp add: zdiv_int of_nat_diff)
  then show ?thesis using b by (simp add: py_range_def)
qed

lemma concat_chunks:
  "concat (map (\<lambda>k. take b (drop (k * b) xs)) [0 ..< m]) = take (m * b) xs"
proof (induction m)
  case 0
  then show ?case by simp
next
  case (Suc m)
  have "take (m * b + b) xs = take (m * b) xs @ take b (drop (m * b) xs)"
    by (rule take_add)
  with Suc show ?case by (simp add: add.commute)
qed

lemma chunks_cover: "0 < b \<Longrightarrow> length xs \<le> ((length xs + b - 1) div b) * b"
proof -
  assume b: "0 < (b::nat)"
  define n where "n = length xs"
  have "n + b - 1 = ((n + b - 1) div b) * b + (n + b - 1) mod b" by simp
  moreover have "(n + b - 1) mod b < b" using b by simp
  ultimately show "n \<le> ((n + b - 1) div b) * b" by linarith
qed

lemma map_Inr_list_all2:
  "map f xs = map Inr ys \<Longrightarrow> list_all2 (\<lambda>x y. f x = Inr y) xs ys"
proof (induction xs arbitrary: ys)
  case Nil
  then show ?case by simp
next
  case (Cons x xs)
  then show ?case by (cases ys) auto
qed

lemma collect_total:
  "(\<forall>x \<in> set xs. \<exists>y. f x = Inr y) \<Longrightarrow> \<exists>ys. collect (map f xs) = Inr ys"
  by (induction xs) auto

lemma concat_aligned_nth:
  assumes "list_all2 (\<lambda>b r. length r = length b) bs rs" and "i < length (concat bs)"
  shows "\<exists>k j. k < length bs \<and> j < length (bs ! k) \<and> i = length (concat (take k bs)) + j
           \<and> concat bs ! i = bs ! k ! j \<and> concat rs ! i = rs ! k ! j"
  using assms
proof (induction bs rs arbitrary: i rule: list_all2_induct)
  case Nil
  then show ?case by simp
next
  case (Cons b bs r rs)
  show ?case
  proof (cases "i < length b")
    case True
    with Cons.hyps(1) have "0 < length (b # bs) \<and> i < length ((b # bs) ! 0)
        \<and> i = length (concat (take 0 (b # bs))) + i
        \<and> concat (b # bs) ! i = (b # bs) ! 0 ! i \<and> concat (r # rs) ! i = (r # rs) ! 0 ! i"
      by (simp add: nth_append)
    then show ?thesis by blast
  next
    case False
    then have "i - length b < length (concat bs)" using Cons.prems by simp
    from Cons.IH [OF this] obtain k j where
      kj: "k < length bs" "j < length (bs ! k)" "i - length b = length (concat (take k bs)) + j"
        "concat bs ! (i - length b) = bs ! k ! j" "concat rs ! (i - length b) = rs ! k ! j"
      by blast
    with False Cons.hyps(1) have "Suc k < length (b # bs) \<and> j < length ((b # bs) ! Suc k)
        \<and> i = length (concat (take (Suc k) (b # bs))) + j
        \<and> concat (b # bs) ! i = (b # bs) ! Suc k ! j \<and> concat (r # rs) ! i = (r # rs) ! Suc k ! j"
      by (simp add: nth_append)
    then show ?thesis by blast
  qed
qed

lemma chunks_of_pairs:
  assumes "0 < bs"
  shows "\<exists>starts. py_range 0 (int (length ps)) bs = Some starts
           \<and> concat (map (\<lambda>i. py_slice ps i (i + bs)) starts) = ps"
proof -
  define b where "b = nat bs"
  have b: "0 < b" "bs = int b" using assms by (simp_all add: b_def)
  let ?m = "(length ps + b - 1) div b"
  let ?starts = "map (\<lambda>k. int (k * b)) [0 ..< ?m]"
  have r: "py_range 0 (int (length ps)) bs = Some ?starts"
    unfolding b(2) using b(1) by (rule py_range_pos)
  have "py_slice ps (int (k * b)) (int (k * b) + bs) = take b (drop (k * b) ps)" for k
  proof -
    have "int (k * b) + bs = int (k * b + b)" by (simp add: b(2))
    then show ?thesis by (simp only: py_slice_nat) simp
  qed
  then have "concat (map (\<lambda>i. py_slice ps i (i + bs)) ?starts)
               = concat (map (\<lambda>k. take b (drop (k * b) ps)) [0 ..< ?m])"
    by (simp add: comp_def)
  also have "\<dots> = take (?m * b) ps" by (rule concat_chunks)
  also have "\<dots> = ps" using chunks_cover [OF b(1), of ps] by simp
  finally show ?thesis using r by blast
qed

subsection \<open>One result from one row\<close>

lemma upt3: "[0 ..< 3] = [0, 1, 2]"
  by (simp add: upt_rec)

lemma prob_dict_loaded:
  assumes "lm = LABEL_MAP \<or> lm = DEBERTA_LABEL_MAP"
  shows "prob_dict lm probs idx [0 ..< length lm] [] =
     (if idx < length probs \<and> 3 \<le> length (probs ! idx)
      then Inr [(the (map_of lm 0), probs ! idx ! 0), (the (map_of lm 1), probs ! idx ! 1),
                (the (map_of lm 2), probs ! idx ! 2)]
      else Inl IndexError)"
  using assms by (auto simp add: LABEL_MAP_def DEBERTA_LABEL_MAP_def upt3 eval_nat_numeral)

lemma map_of_loaded:
  assumes "lm = LABEL_MAP \<or> lm = DEBERTA_LABEL_MAP"
  shows "map_of lm k = (if k < 3 then Some (the (map_of lm k)) else None)"
  using assms by (auto simp add: LABEL_MAP_def DEBERTA_LABEL_MAP_def)

lemma result_item_loaded:
  assumes lm: "lm = LABEL_MAP \<or> lm = DEBERTA_LABEL_MAP"
    and r: "result_item lm probs idx = Inr r"
  shows "idx < length probs \<and> 3 \<le> length (probs ! idx)
     \<and> (\<exists>k<3. argmax (probs ! idx) = Some k
          \<and> label r = the (map_of lm k) \<and> confidence r = probs ! idx ! k)
     \<and> scores r = [(the (map_of lm 0), probs ! idx ! 0), (the (map_of lm 1), probs ! idx ! 1),
                (the (map_of lm 2), probs ! idx ! 2)]"
proof -
  have a: "idx < length probs \<and> 3 \<le> length (probs ! idx)"
    using r unfolding result_item_def prob_dict_loaded [OF lm]
    by (simp split: if_splits)
  then have "probs ! idx \<noteq> []" by auto
  then obtain k where k: "argmax (probs ! idx) = Some k"
    using argmax_Some by blast
  have "k < 3"
    using r a k unfolding result_item_def prob_dict_loaded [OF lm]
    by (subst (asm) map_of_loaded [OF lm]) (simp split: if_splits)
  then show ?thesis
    using r a k unfolding result_item_def prob_dict_loaded [OF lm]
    by (subst (asm) map_of_loaded [OF lm]) auto
qed

lemma result_item_total:
  assumes lm: "lm = LABEL_MAP \<or> lm = DEBERTA_LABEL_MAP"
    and "idx < length probs" and "length (probs ! idx) = 3"
  shows "\<exists>r. result_item lm probs idx = Inr r"
proof -
  have "probs ! idx \<noteq> []" using assms by auto
  then obtain k where k: "argmax (probs ! idx) = Some k"
    using argmax_Some by blast
  then have "k < 3" using argmax_spec [OF k] assms by simp
  then show ?thesis
    using assms k unfolding result_item_def prob_dict_loaded [OF lm]
    by (subst map_of_loaded [OF lm]) simp
qed


lemma label_maps_permute:
  "map fst LABEL_MAP = [0, 1, 2]" "map fst DEBERTA_LABEL_MAP = [0, 1, 2]"
  "distinct (map snd LABEL_MAP)" "distinct (map snd DEBERTA_LABEL_MAP)"
  "set (map snd LABEL_MAP) = canonical_labels"
  "set (map snd DEBERTA_LABEL_MAP) = canonical_labels"
  by (auto simp add: LABEL_MAP_def DEBERTA_LABEL_MAP_def canonical_labels_def)

lemma prob_dict_row:
  "idx < length probs \<Longrightarrow> prob_dict lm probs idx is d = prob_dict lm [probs ! idx] 0 is d"
  by (induction "is" arbitrary: d) (auto split: option.splits)

lemma result_item_row:
  "idx < length probs \<Longrightarrow> result_item lm probs idx = result_item lm [probs ! idx] 0"
  by (simp add: result_item_def prob_dict_row [of idx probs] split: sum.splits option.splits)

subsection \<open>The normalised exponential\<close>



lemma softmax_length: "length (softmax row) = length row"
  by (simp add: softmax_def)




subsection \<open>The batch classifier and the handler\<close>

lemma load_model_state:
  assumes "load_model h cfg st0 = Inr st"
  shows "\<exists>tok m lm. tokenizer st = Some tok \<and> model st = Some m \<and> label_map st = Some lm
           \<and> (lm = LABEL_MAP \<or> lm = DEBERTA_LABEL_MAP)"
  using assms by (auto simp add: load_model_def Let_def split: sum.splits)

lemma classify_batch_collect:
  assumes "label_map st = Some lm"
  shows "classify_batch st cfg ps =
     (case batch_probs st cfg ps of
        Inl e \<Rightarrow> Inl e
      | Inr probs \<Rightarrow> collect (map (result_item lm probs) [0 ..< length ps]))"
  using assms by (auto simp add: classify_batch_def batch_loop_collect split: sum.splits)

lemma classify_batch_InrD:
  assumes lm: "label_map st = Some lm" and rs: "classify_batch st cfg ps = Inr rs"
  shows "\<exists>probs. batch_probs st cfg ps = Inr probs \<and> length rs = length ps
           \<and> (\<forall>j<length ps. result_item lm probs j = Inr (rs ! j))"
proof -
  from rs obtain probs where p: "batch_probs st cfg ps = Inr probs"
    and c: "collect (map (result_item lm probs) [0 ..< length ps]) = Inr rs"
    unfolding classify_batch_collect [OF lm] by (auto split: sum.splits)
  have m: "map (result_item lm probs) [0 ..< length ps] = map Inr rs"
    using c by (rule collect_InrD)
  then have len: "length rs = length ps"
    by (metis length_map length_upt minus_nat.diff_0)
  have "result_item lm probs j = Inr (rs ! j)" if "j < length ps" for j
  proof -
    have "map (result_item lm probs) [0 ..< length ps] ! j = map Inr rs ! j"
      using m by simp
    then show ?thesis using that len by simp
  qed
  with p len show ?thesis by blast
qed

lemma batch_probs_InrD:
  assumes "batch_probs st cfg ps = Inr probs"
  shows "\<exists>m enc lg. model st = Some m \<and> forward m enc = Inr lg \<and> probs = map softmax lg"
  using assms by (auto simp add: batch_probs_def Let_def split: option.splits sum.splits)

lemma classify_nli_snd:
  "snd (classify_nli st cfg request) =
     (if model st = None \<or> tokenizer st = None then Inl (HTTPException 503 ''Model not loaded'')
      else if pairs request = [] then Inr \<lparr>results = []\<rparr>
      else if length (pairs request) > 100 then
        Inl (HTTPException 400 ''Maximum 100 pairs per request'')
      else
        (case py_range 0 (int (length (pairs request))) (BATCH_SIZE cfg) of
           None \<Rightarrow> Inl ValueError
         | Some starts \<Rightarrow>
            (case snd (nli_loop st cfg (pairs request) starts [] []) of
               Inl e \<Rightarrow> Inl e
             | Inr rs \<Rightarrow> Inr \<lparr>results = rs\<rparr>)))"
  by (simp add: classify_nli_def split: option.splits prod.splits sum.splits)

lemma classify_nli_result_from_batch:
  assumes "snd (classify_nli st cfg request) = Inr resp" and "r \<in> set (results resp)"
  shows "\<exists>ps rs. classify_batch st cfg ps = Inr rs \<and> r \<in> set rs"
proof -
  let ?f = "\<lambda>i. classify_batch st cfg (py_slice (pairs request) i (i + BATCH_SIZE cfg))"
  have "\<exists>starts. snd (nli_loop st cfg (pairs request) starts [] []) = Inr (results resp)"
    using assms unfolding classify_nli_snd
    by (auto split: if_splits option.splits sum.splits)
  then obtain starts where
    loop: "snd (nli_loop st cfg (pairs request) starts [] []) = Inr (results resp)" ..
  then obtain rss where c: "collect (map ?f starts) = Inr rss" and res: "results resp = concat rss"
    unfolding nli_loop_snd by (auto split: sum.splits)
  from assms(2) res obtain rs where rs: "rs \<in> set rss" and r: "r \<in> set rs" by auto
  have "map ?f starts = map Inr rss" using c by (rule collect_InrD)
  then have "Inr rs \<in> set (map ?f starts)" using rs by simp
  then obtain i where "?f i = Inr rs" by auto
  with r show ?thesis by blast
qed

lemma returned_item:
  assumes load: "load_model h cfg st0 = Inr st"
    and ret: "(\<exists>ps rs. classify_batch st cfg ps = Inr rs \<and> r \<in> set rs)
       \<or> (\<exists>request resp. snd (classify_nli st cfg request) = Inr resp \<and> r \<in> set (results resp))"
  shows "\<exists>lm m enc lg idx. label_map st = Some lm \<and> (lm = LABEL_MAP \<or> lm = DEBERTA_LABEL_MAP)
           \<and> model st = Some m \<and> forward m enc = Inr lg
           \<and> result_item lm (map softmax lg) idx = Inr r"
proof -
  from load_model_state [OF load] obtain lm where
    lm: "label_map st = Some lm" "lm = LABEL_MAP \<or> lm = DEBERTA_LABEL_MAP" by blast
  from ret obtain ps rs where b: "classify_batch st cfg ps = Inr rs" and r: "r \<in> set rs"
    using classify_nli_result_from_batch by blast
  from classify_batch_InrD [OF lm(1) b] obtain probs where
    p: "batch_probs st cfg ps = Inr probs" and len: "length rs = length ps"
    and item: "\<forall>j<length ps. result_item lm probs j = Inr (rs ! j)" by blast
  from r obtain j where j: "j < length rs" "r = rs ! j" by (auto simp add: in_set_conv_nth)
  from batch_probs_InrD [OF p] obtain m enc lg where
    "model st = Some m" "forward m enc = Inr lg" "probs = map softmax lg" by blast
  with lm item j len show ?thesis by auto
qed

lemma classify_batch_pairwise:
  assumes st: "tokenizer st = Some tok" "model st = Some m" "label_map st = Some lm"
    and pw: "pairwise tok m (MAX_LENGTH cfg) row"
  shows "classify_batch st cfg b =
     collect (map (\<lambda>p. result_item lm
        [softmax (row (py_slice (premise p) 0 (MAX_LENGTH cfg))
                      (py_slice (hypothesis p) 0 (MAX_LENGTH cfg)))] 0) b)"
proof -
  let ?g = "\<lambda>p. softmax (row (py_slice (premise p) 0 (MAX_LENGTH cfg))
                      (py_slice (hypothesis p) 0 (MAX_LENGTH cfg)))"
  let ?prems = "map (\<lambda>p. py_slice (premise p) 0 (MAX_LENGTH cfg)) b"
  let ?hyps = "map (\<lambda>p. py_slice (hypothesis p) 0 (MAX_LENGTH cfg)) b"
  have "forward m (tok ?prems ?hyps (MAX_LENGTH cfg))
          = Inr (map (\<lambda>(p, h). row p h) (zip ?prems ?hyps))"
    using pw by (simp add: pairwise_def)
  moreover have "map softmax (map (\<lambda>(p, h). row p h) (zip ?prems ?hyps)) = map ?g b"
    by (simp add: zip_map_map zip_same_conv_map)
  ultimately have p: "batch_probs st cfg b = Inr (map ?g b)"
    using st by (simp add: batch_probs_def)
  have row: "result_item lm (map ?g b) j = result_item lm [?g (b ! j)] 0" if "j < length b" for j
    using that result_item_row [of j "map ?g b" lm] by simp
  have "map (result_item lm (map ?g b)) [0 ..< length b]
          = map (\<lambda>j. result_item lm [?g (b ! j)] 0) [0 ..< length b]"
    by (rule map_cong) (simp_all add: row)
  also have "\<dots> = map (\<lambda>p. result_item lm [?g p] 0) (map (\<lambda>j. b ! j) [0 ..< length b])"
    by (simp add: comp_def)
  also have "\<dots> = map (\<lambda>p. result_item lm [?g p] 0) b"
    by (simp only: map_nth)
  finally show ?thesis by (simp add: classify_batch_collect [OF st(3)] p)
qed

subsection \<open>Results and the batches they come from\<close>


lemma classify_nli_fst:
  "fst (classify_nli st cfg request) =
     (if model st = None \<or> tokenizer st = None \<or> pairs request = []
         \<or> length (pairs request) > 100 then []
      else
        (case py_range 0 (int (length (pairs request))) (BATCH_SIZE cfg) of
           None \<Rightarrow> []
         | Some starts \<Rightarrow> fst (nli_loop st cfg (pairs request) starts [] [])))"
  by (simp add: classify_nli_def split: option.splits prod.splits sum.splits)

lemma classify_nli_aligned:
  assumes lm: "label_map st = Some lm"
    and ret: "snd (classify_nli st cfg request) = Inr resp"
  shows "\<exists>rss. results resp = concat rss
     \<and> list_all2 (\<lambda>b rs. length rs = length b
          \<and> (\<exists>probs. batch_probs st cfg b = Inr probs
                \<and> (\<forall>j<length b. result_item lm probs j = Inr (rs ! j))))
         (fst (classify_nli st cfg request)) rss"
proof (cases "pairs request = []")
  case True
  with ret have "results resp = []" "fst (classify_nli st cfg request) = []"
    by (auto simp add: classify_nli_snd classify_nli_fst split: if_splits)
  then have "results resp = concat []
     \<and> list_all2 (\<lambda>b rs. length rs = length b
          \<and> (\<exists>probs. batch_probs st cfg b = Inr probs
                \<and> (\<forall>j<length b. result_item lm probs j = Inr (rs ! j))))
         (fst (classify_nli st cfg request)) []" by simp
  then show ?thesis by blast
next
  case False
  let ?ps = "pairs request"
  let ?slice = "\<lambda>i. py_slice ?ps i (i + BATCH_SIZE cfg)"
  let ?f = "\<lambda>i. classify_batch st cfg (?slice i)"
  from ret False obtain starts where
    starts: "py_range 0 (int (length ?ps)) (BATCH_SIZE cfg) = Some starts"
    and ready: "\<not> (model st = None \<or> tokenizer st = None)" "\<not> length ?ps > 100"
    and loop: "snd (nli_loop st cfg ?ps starts [] []) = Inr (results resp)"
    unfolding classify_nli_snd by (auto split: if_splits option.splits sum.splits)
  from loop obtain rss where c: "collect (map ?f starts) = Inr rss"
    and res: "results resp = concat rss"
    unfolding nli_loop_snd by (auto split: sum.splits)
  have calls: "fst (classify_nli st cfg request) = map ?slice starts"
    using nli_loop_fst [OF c, of "[]" "[]"] ready False starts
    by (auto simp add: classify_nli_fst)
  have "map ?f starts = map Inr rss" using c by (rule collect_InrD)
  then have "list_all2 (\<lambda>i rs. ?f i = Inr rs) starts rss" by (rule map_Inr_list_all2)
  then have "list_all2 (\<lambda>b rs. classify_batch st cfg b = Inr rs) (map ?slice starts) rss"
    by (simp add: list_all2_map1)
  then have "list_all2 (\<lambda>b rs. length rs = length b
          \<and> (\<exists>probs. batch_probs st cfg b = Inr probs
                \<and> (\<forall>j<length b. result_item lm probs j = Inr (rs ! j))))
         (map ?slice starts) rss"
    by (rule list_all2_mono) (use classify_batch_InrD [OF lm] in blast)
  with res calls show ?thesis by auto
qed

lemma scores_from_map:
  assumes "lm = LABEL_MAP \<or> lm = DEBERTA_LABEL_MAP"
  shows "[(the (map_of lm 0), row ! 0), (the (map_of lm 1), row ! 1), (the (map_of lm 2), row ! 2)]
     = map (\<lambda>(c, l). (l, row ! c)) lm"
  using assms by (auto simp add: LABEL_MAP_def DEBERTA_LABEL_MAP_def)

subsection \<open>The stand-in at work\<close>

lemma load_model_stub_gen:
  assumes "NLI_MODEL cfg = ''microsoft/deberta-v3-large-mnli''"
  shows "load_model (stub_hub a) cfg initial_state =
     Inr (stub_state (if DEVICE cfg = ''cuda'' \<and> a then Cuda else Cpu))"
  using default_model_is_deberta assms
  by (simp add: load_model_def stub_hub_def stub_state_def initial_state_def cuda_def Let_def)

lemma stub_state_sel:
  "model (stub_state d) = Some \<lparr>forward = stub_forward, placement = d\<rparr>"
  "tokenizer (stub_state d) = Some stub_tokenizer"
  "label_map (stub_state d) = Some DEBERTA_LABEL_MAP"
  by (simp_all add: stub_state_def)

lemma stub_three_classes: "three_classes \<lparr>forward = stub_forward, placement = d\<rparr>"
  by (auto simp add: three_classes_def stub_forward_def)

lemma stub_one_row_per_pair:
  "one_row_per_pair stub_tokenizer \<lparr>forward = stub_forward, placement = d\<rparr> n"
  by (simp add: one_row_per_pair_def stub_forward_def stub_tokenizer_def)

lemma stub_pairwise:
  "pairwise stub_tokenizer \<lparr>forward = stub_forward, placement = d\<rparr> n stub_row"
  by (simp add: pairwise_def stub_forward_def stub_tokenizer_def stub_row_def)

lemma upt2: "[0 ..< 2] = [0, 1]"
  by (simp add: upt_rec)

lemma stub_batch_two:
  "classify_batch (stub_state Cpu) (default_config\<lparr>BATCH_SIZE := 2\<rparr>)
     [\<lparr>premise = ''a'', hypothesis = ''bc''\<rparr>, \<lparr>premise = ''abc'', hypothesis = ''d''\<rparr>]
   = Inr [\<lparr>label = ''neutral'', confidence = 1 / 2,
           scores = [(''contradiction'', 1 / 4), (''neutral'', 1 / 2), (''entailment'', 1 / 4)]\<rparr>,
          \<lparr>label = ''contradiction'', confidence = 1 / 2,
           scores = [(''contradiction'', 1 / 2), (''neutral'', 1 / 4), (''entailment'', 1 / 4)]\<rparr>]"
  by (simp add: classify_batch_def batch_probs_def stub_state_def stub_tokenizer_def
      stub_forward_def py_slice_def py_bound_def default_config_sel softmax_def
      result_item_def DEBERTA_LABEL_MAP_def upt3 upt_rec [of 0 2] upt_rec [of 1 2])

lemma stub_batch_one:
  "classify_batch (stub_state Cpu) (default_config\<lparr>BATCH_SIZE := 2\<rparr>)
     [\<lparr>premise = ''x'', hypothesis = ''yz''\<rparr>]
   = Inr [\<lparr>label = ''neutral'', confidence = 1 / 2,
           scores = [(''contradiction'', 1 / 4), (''neutral'', 1 / 2), (''entailment'', 1 / 4)]\<rparr>]"
  by (simp add: classify_batch_def batch_probs_def stub_state_def stub_tokenizer_def
      stub_forward_def py_slice_def py_bound_def default_config_sel softmax_def
      result_item_def DEBERTA_LABEL_MAP_def upt3)

lemma stub_three_pairs:
  "classify_nli (stub_state Cpu) (default_config\<lparr>BATCH_SIZE := 2\<rparr>)
     \<lparr>pairs = [\<lparr>premise = ''a'', hypothesis = ''bc''\<rparr>, \<lparr>premise = ''abc'', hypothesis = ''d''\<rparr>,
               \<lparr>premise = ''x'', hypothesis = ''yz''\<rparr>], req_model = None\<rparr>
   = ([[\<lparr>premise = ''a'', hypothesis = ''bc''\<rparr>, \<lparr>premise = ''abc'', hypothesis = ''d''\<rparr>],
       [\<lparr>premise = ''x'', hypothesis = ''yz''\<rparr>]],
      Inr \<lparr>results =
         [\<lparr>label = ''neutral'', confidence = 1 / 2,
           scores = [(''contradiction'', 1 / 4), (''neutral'', 1 / 2), (''entailment'', 1 / 4)]\<rparr>,
          \<lparr>label = ''contradiction'', confidence = 1 / 2,
           scores = [(''contradiction'', 1 / 2), (''neutral'', 1 / 4), (''entailment'', 1 / 4)]\<rparr>,
          \<lparr>label = ''neutral'', confidence = 1 / 2,
           scores = [(''contradiction'', 1 / 4), (''neutral'', 1 / 2), (''entailment'', 1 / 4)]\<rparr>]\<rparr>)"
proof -
  have r: "py_range 0 3 2 = Some [0, 2]"
    by (simp add: py_range_def upt2)
  have s1: "py_slice [\<lparr>premise = ''a'', hypothesis = ''bc''\<rparr>, \<lparr>premise = ''abc'', hypothesis = ''d''\<rparr>,
               \<lparr>premise = ''x'', hypothesis = ''yz''\<rparr>] 0 2
         = [\<lparr>premise = ''a'', hypothesis = ''bc''\<rparr>, \<lparr>premise = ''abc'', hypothesis = ''d''\<rparr>]"
    by (simp add: py_slice_def py_bound_def)
  have s2: "py_slice [\<lparr>premise = ''a'', hypothesis = ''bc''\<rparr>, \<lparr>premise = ''abc'', hypothesis = ''d''\<rparr>,
               \<lparr>premise = ''x'', hypothesis = ''yz''\<rparr>] 2 4
         = [\<lparr>premise = ''x'', hypothesis = ''yz''\<rparr>]"
    by (simp add: py_slice_def py_bound_def)
  show ?thesis
    by (simp add: classify_nli_def stub_state_sel r s1 s2 stub_batch_two stub_batch_one)
qed

lemma load_stub_default:
  "load_model (stub_hub False) default_config initial_state = Inr (stub_state Cpu)"
  using load_model_stub_gen [of default_config False] by (simp add: default_config_sel)

lemma load_stub_two:
  "load_model (stub_hub False) (default_config\<lparr>BATCH_SIZE := 2\<rparr>) initial_state
     = Inr (stub_state Cpu)"
  using load_model_stub_gen [of "default_config\<lparr>BATCH_SIZE := 2\<rparr>" False]
  by (simp add: default_config_sel)

lemma load_model_with:
  assumes "NLI_MODEL cfg = ''microsoft/deberta-v3-large-mnli''"
  shows "load_model (hub_with f) cfg initial_state = Inr (state_with f)"
  using default_model_is_deberta assms
  by (simp add: load_model_def hub_with_def state_with_def initial_state_def Let_def)

lemma state_with_sel:
  "model (state_with f) = Some \<lparr>forward = f, placement = Cpu\<rparr>"
  "tokenizer (state_with f) = Some stub_tokenizer"
  "label_map (state_with f) = Some DEBERTA_LABEL_MAP"
  by (simp_all add: state_with_def)


lemma batch_aware_two:
  "classify_batch (state_with batch_aware_forward) (default_config\<lparr>BATCH_SIZE := 2\<rparr>)
     [\<lparr>premise = ''a'', hypothesis = ''bc''\<rparr>, \<lparr>premise = ''abc'', hypothesis = ''d''\<rparr>]
   = Inr [\<lparr>label = ''contradiction'', confidence = 1 / 2,
           scores = [(''contradiction'', 1 / 2), (''neutral'', 1 / 4), (''entailment'', 1 / 4)]\<rparr>,
          \<lparr>label = ''contradiction'', confidence = 1 / 2,
           scores = [(''contradiction'', 1 / 2), (''neutral'', 1 / 4), (''entailment'', 1 / 4)]\<rparr>]"
  by (simp add: classify_batch_def batch_probs_def state_with_def stub_tokenizer_def
      batch_aware_forward_def py_slice_def py_bound_def default_config_sel softmax_def
      result_item_def DEBERTA_LABEL_MAP_def upt3 upt2)

lemma batch_aware_one:
  "classify_batch (state_with batch_aware_forward) (default_config\<lparr>BATCH_SIZE := 2\<rparr>)
     [\<lparr>premise = ''x'', hypothesis = ''yz''\<rparr>]
   = Inr [\<lparr>label = ''neutral'', confidence = 1 / 2,
           scores = [(''contradiction'', 1 / 4), (''neutral'', 1 / 2), (''entailment'', 1 / 4)]\<rparr>]"
  by (simp add: classify_batch_def batch_probs_def state_with_def stub_tokenizer_def
      batch_aware_forward_def py_slice_def py_bound_def default_config_sel softmax_def
      result_item_def DEBERTA_LABEL_MAP_def upt3)

lemma batch_aware_three:
  "classify_batch (state_with batch_aware_forward) (default_config\<lparr>BATCH_SIZE := 2\<rparr>)
     [\<lparr>premise = ''a'', hypothesis = ''bc''\<rparr>, \<lparr>premise = ''abc'', hypothesis = ''d''\<rparr>,
      \<lparr>premise = ''x'', hypothesis = ''yz''\<rparr>]
   = Inr [\<lparr>label = ''contradiction'', confidence = 1 / 2,
           scores = [(''contradiction'', 1 / 2), (''neutral'', 1 / 4), (''entailment'', 1 / 4)]\<rparr>,
          \<lparr>label = ''contradiction'', confidence = 1 / 2,
           scores = [(''contradiction'', 1 / 2), (''neutral'', 1 / 4), (''entailment'', 1 / 4)]\<rparr>,
          \<lparr>label = ''contradiction'', confidence = 1 / 2,
           scores = [(''contradiction'', 1 / 2), (''neutral'', 1 / 4), (''entailment'', 1 / 4)]\<rparr>]"
  by (simp add: classify_batch_def batch_probs_def state_with_def stub_tokenizer_def
      batch_aware_forward_def py_slice_def py_bound_def default_config_sel softmax_def
      result_item_def DEBERTA_LABEL_MAP_def upt3)

lemma three_pairs_range_and_slices:
  "py_range 0 3 2 = Some [0, 2]"
  "py_slice [\<lparr>premise = ''a'', hypothesis = ''bc''\<rparr>, \<lparr>premise = ''abc'', hypothesis = ''d''\<rparr>,
       \<lparr>premise = ''x'', hypothesis = ''yz''\<rparr>] 0 2
     = [\<lparr>premise = ''a'', hypothesis = ''bc''\<rparr>, \<lparr>premise = ''abc'', hypothesis = ''d''\<rparr>]"
  "py_slice [\<lparr>premise = ''a'', hypothesis = ''bc''\<rparr>, \<lparr>premise = ''abc'', hypothesis = ''d''\<rparr>,
       \<lparr>premise = ''x'', hypothesis = ''yz''\<rparr>] 2 4
     = [\<lparr>premise = ''x'', hypothesis = ''yz''\<rparr>]"
  by (simp_all add: py_range_def upt2 py_slice_def py_bound_def)

subsection \<open>Length and order of the results\<close>

lemma classify_nli_positive_batch:
  assumes load: "load_model h cfg st0 = Inr st"
    and ne: "pairs request \<noteq> []" and cap: "length (pairs request) \<le> 100"
    and bs: "0 < BATCH_SIZE cfg"
  shows "(\<forall>resp. snd (classify_nli st cfg request) = Inr resp \<longrightarrow>
            length (results resp) = length (pairs request)
          \<and> (\<exists>rss. concat (fst (classify_nli st cfg request)) = pairs request
                \<and> results resp = concat rss
                \<and> list_all2 (\<lambda>b rs. classify_batch st cfg b = Inr rs \<and> length rs = length b
                       \<and> (\<exists>probs lm. batch_probs st cfg b = Inr probs
                             \<and> label_map st = Some lm
                             \<and> (\<forall>j<length b. result_item lm probs j = Inr (rs ! j))))
                     (fst (classify_nli st cfg request)) rss
                \<and> (\<forall>i<length (pairs request). \<exists>k j.
                      k < length rss \<and> j < length (rss ! k)
                    \<and> i = length (concat (take k (fst (classify_nli st cfg request)))) + j
                    \<and> fst (classify_nli st cfg request) ! k ! j = pairs request ! i
                    \<and> rss ! k ! j = results resp ! i)))
       \<and> (\<forall>tok m. tokenizer st = Some tok \<and> model st = Some m
             \<and> one_row_per_pair tok m (MAX_LENGTH cfg) \<and> three_classes m
            \<longrightarrow> (\<exists>resp. snd (classify_nli st cfg request) = Inr resp))"
proof -
  let ?ps = "pairs request"
  let ?slice = "\<lambda>i. py_slice ?ps i (i + BATCH_SIZE cfg)"
  let ?f = "\<lambda>i. classify_batch st cfg (?slice i)"
  from load_model_state [OF load] obtain tok0 m0 lm where
    st: "tokenizer st = Some tok0" "model st = Some m0" "label_map st = Some lm"
      "lm = LABEL_MAP \<or> lm = DEBERTA_LABEL_MAP" by blast
  from chunks_of_pairs [OF bs, of ?ps] obtain starts where
    starts: "py_range 0 (int (length ?ps)) (BATCH_SIZE cfg) = Some starts"
    and cover: "concat (map ?slice starts) = ?ps" by blast
  have snd_eq: "snd (classify_nli st cfg request) =
      (case snd (nli_loop st cfg ?ps starts [] []) of
         Inl e \<Rightarrow> Inl e | Inr rs \<Rightarrow> Inr \<lparr>results = rs\<rparr>)"
    using st ne cap starts by (simp add: classify_nli_snd)
  have fst_eq: "fst (classify_nli st cfg request) = fst (nli_loop st cfg ?ps starts [] [])"
    using st ne cap starts by (simp add: classify_nli_def split: prod.splits sum.splits)
  have part1: "length (results resp) = length ?ps
          \<and> (\<exists>rss. concat (fst (classify_nli st cfg request)) = ?ps
                \<and> results resp = concat rss
                \<and> list_all2 (\<lambda>b rs. classify_batch st cfg b = Inr rs \<and> length rs = length b
                       \<and> (\<exists>probs lm. batch_probs st cfg b = Inr probs
                             \<and> label_map st = Some lm
                             \<and> (\<forall>j<length b. result_item lm probs j = Inr (rs ! j))))
                     (fst (classify_nli st cfg request)) rss
                \<and> (\<forall>i<length ?ps. \<exists>k j.
                      k < length rss \<and> j < length (rss ! k)
                    \<and> i = length (concat (take k (fst (classify_nli st cfg request)))) + j
                    \<and> fst (classify_nli st cfg request) ! k ! j = ?ps ! i
                    \<and> rss ! k ! j = results resp ! i))"
    if ret: "snd (classify_nli st cfg request) = Inr resp" for resp
  proof -
    let ?calls = "fst (classify_nli st cfg request)"
    from ret obtain rss where c: "collect (map ?f starts) = Inr rss"
      and res: "results resp = concat rss"
      unfolding snd_eq nli_loop_snd by (auto split: sum.splits)
    have calls: "?calls = map ?slice starts"
      using nli_loop_fst [OF c, of "[]" "[]"] fst_eq by simp
    have "map ?f starts = map Inr rss" using c by (rule collect_InrD)
    then have "list_all2 (\<lambda>i rs. ?f i = Inr rs) starts rss" by (rule map_Inr_list_all2)
    then have "list_all2 (\<lambda>b rs. classify_batch st cfg b = Inr rs) (map ?slice starts) rss"
      by (simp add: list_all2_map1)
    then have al: "list_all2 (\<lambda>b rs. classify_batch st cfg b = Inr rs \<and> length rs = length b
                       \<and> (\<exists>probs lm. batch_probs st cfg b = Inr probs
                             \<and> label_map st = Some lm
                             \<and> (\<forall>j<length b. result_item lm probs j = Inr (rs ! j))))
        ?calls rss"
      unfolding calls
      by (rule list_all2_mono) (use classify_batch_InrD [OF st(3)] st(3) in blast)
    then have al': "list_all2 (\<lambda>b r. length r = length b) ?calls rss"
      by (rule list_all2_mono) simp
    have cc: "concat ?calls = ?ps" using calls cover by simp
    have len: "length (concat rss) = length (concat ?calls)"
      using al' by (induction rule: list_all2_induct) simp_all
    have idx: "\<exists>k j. k < length rss \<and> j < length (rss ! k)
                    \<and> i = length (concat (take k ?calls)) + j
                    \<and> ?calls ! k ! j = ?ps ! i \<and> rss ! k ! j = results resp ! i"
      if "i < length ?ps" for i
    proof -
      from that have "i < length (concat ?calls)" by (simp add: cc)
      from concat_aligned_nth [OF al' this] obtain k j where
        kj: "k < length ?calls" "j < length (?calls ! k)"
          "i = length (concat (take k ?calls)) + j"
          "concat ?calls ! i = ?calls ! k ! j" "concat rss ! i = rss ! k ! j" by blast
      have "length rss = length ?calls" using al' by (simp add: list_all2_lengthD)
      moreover have "length (rss ! k) = length (?calls ! k)"
        using list_all2_nthD [OF al' kj(1)] by simp
      ultimately show ?thesis using kj cc res by auto
    qed
    show ?thesis using len cc res al idx by auto
  qed
  have part2: "\<exists>resp. snd (classify_nli st cfg request) = Inr resp"
    if shape: "tokenizer st = Some tok \<and> model st = Some m
             \<and> one_row_per_pair tok m (MAX_LENGTH cfg) \<and> three_classes m" for tok m
  proof -
    have batch: "\<exists>rs. classify_batch st cfg b = Inr rs" for b
    proof -
      let ?prems = "map (\<lambda>p. py_slice (premise p) 0 (MAX_LENGTH cfg)) b"
      let ?hyps = "map (\<lambda>p. py_slice (hypothesis p) 0 (MAX_LENGTH cfg)) b"
      have "length ?prems = length ?hyps" by simp
      with shape obtain lg where
        lg: "forward m (tok ?prems ?hyps (MAX_LENGTH cfg)) = Inr lg" "length lg = length b"
        unfolding one_row_per_pair_def by (metis length_map)
      have rows: "\<forall>row \<in> set lg. length row = 3"
        using shape lg(1) by (auto simp add: three_classes_def)
      have p: "batch_probs st cfg b = Inr (map softmax lg)"
        using shape lg(1) by (simp add: batch_probs_def)
      have "\<exists>r. result_item lm (map softmax lg) j = Inr r" if "j \<in> set [0 ..< length b]" for j
      proof (rule result_item_total [OF st(4)])
        show "j < length (map softmax lg)" using that lg(2) by simp
        then show "length (map softmax lg ! j) = 3" using rows by (simp add: softmax_length)
      qed
      then have "\<exists>rs. collect (map (result_item lm (map softmax lg)) [0 ..< length b]) = Inr rs"
        by (intro collect_total) blast
      then show ?thesis by (simp add: classify_batch_collect [OF st(3)] p)
    qed
    then have "\<exists>rss. collect (map ?f starts) = Inr rss" by (intro collect_total) blast
    then show ?thesis unfolding snd_eq nli_loop_snd by auto
  qed
  show ?thesis using part1 part2 by blast
qed

text \<open>
  C1, as the specification states it, fails: \<open>BATCH_SIZE\<close> is read from the environment
  as any integer, and with a negative value \<open>range(0, len(pairs), BATCH_SIZE)\<close> is empty, so a
  request with one pair, sent to a loaded service, is answered with success and no result.
\<close>

theorem negative_batch_size_counterexample:
  "load_model (stub_hub False) (default_config\<lparr>BATCH_SIZE := - 1\<rparr>) initial_state
     = Inr (stub_state Cpu)
   \<and> classify_nli (stub_state Cpu) (default_config\<lparr>BATCH_SIZE := - 1\<rparr>)
       \<lparr>pairs = [\<lparr>premise = ''a'', hypothesis = ''bc''\<rparr>], req_model = None\<rparr>
     = ([], Inr \<lparr>results = []\<rparr>)"
proof -
  have "load_model (stub_hub False) (default_config\<lparr>BATCH_SIZE := - 1\<rparr>) initial_state
     = Inr (stub_state Cpu)"
    using load_model_stub_gen [of "default_config\<lparr>BATCH_SIZE := - 1\<rparr>" False]
    by (simp add: default_config_sel)
  moreover have "py_range 0 1 (- 1) = Some []" by (simp add: py_range_def)
  ultimately show ?thesis
    by (simp add: classify_nli_def stub_state_sel)
qed

text \<open>
  C1, amended. Take a state left by \<open>load_model\<close>, a request with between 1 and 100 pairs
  and a batch size that is not negative. Whenever the handler returns a response, its result
  list is as long as the pair list; the batches handed to the classifier, concatenated, are
  the pair list; the results are the classifier's per-batch results concatenated in the same
  order, each as long as its batch, with the result in slot \<open>j\<close> built from row \<open>j\<close> of the
  probabilities of that batch; so the result at position \<open>i\<close> is the classifier's result for
  the slot at which pair \<open>i\<close> was submitted. The handler does return a response when the batch
  size is positive and the forward pass yields one row of three logits per pair.
\<close>

theorem classify_nli_keeps_length_and_order:
  assumes load: "load_model h cfg st0 = Inr st"
    and ne: "pairs request \<noteq> []" and cap: "length (pairs request) \<le> 100"
    and bs: "0 \<le> BATCH_SIZE cfg"
  shows "(\<forall>resp. snd (classify_nli st cfg request) = Inr resp \<longrightarrow>
            length (results resp) = length (pairs request)
          \<and> (\<exists>rss. concat (fst (classify_nli st cfg request)) = pairs request
                \<and> results resp = concat rss
                \<and> list_all2 (\<lambda>b rs. classify_batch st cfg b = Inr rs \<and> length rs = length b
                       \<and> (\<exists>probs lm. batch_probs st cfg b = Inr probs
                             \<and> label_map st = Some lm
                             \<and> (\<forall>j<length b. result_item lm probs j = Inr (rs ! j))))
                     (fst (classify_nli st cfg request)) rss
                \<and> (\<forall>i<length (pairs request). \<exists>k j.
                      k < length rss \<and> j < length (rss ! k)
                    \<and> i = length (concat (take k (fst (classify_nli st cfg request)))) + j
                    \<and> fst (classify_nli st cfg request) ! k ! j = pairs request ! i
                    \<and> rss ! k ! j = results resp ! i)))
       \<and> (\<forall>tok m. 0 < BATCH_SIZE cfg \<and> tokenizer st = Some tok \<and> model st = Some m
             \<and> one_row_per_pair tok m (MAX_LENGTH cfg) \<and> three_classes m
            \<longrightarrow> (\<exists>resp. snd (classify_nli st cfg request) = Inr resp))"
proof (cases "BATCH_SIZE cfg = 0")
  case True
  from load_model_state [OF load] have "model st \<noteq> None" "tokenizer st \<noteq> None" by auto
  then have "snd (classify_nli st cfg request) = Inl ValueError"
    using ne cap True by (simp add: classify_nli_snd py_range_def)
  with True show ?thesis by simp
next
  case False
  with bs have pos: "0 < BATCH_SIZE cfg" by simp
  from classify_nli_positive_batch [OF load ne cap pos] pos
  show ?thesis by (elim conjE) (intro conjI, assumption, blast)
qed

theorem classify_nli_keeps_length_and_order_witness:
  "load_model (stub_hub False) (default_config\<lparr>BATCH_SIZE := 2\<rparr>) initial_state
     = Inr (stub_state Cpu)
   \<and> 0 < BATCH_SIZE (default_config\<lparr>BATCH_SIZE := 2\<rparr>)
   \<and> one_row_per_pair stub_tokenizer \<lparr>forward = stub_forward, placement = Cpu\<rparr>
        (MAX_LENGTH (default_config\<lparr>BATCH_SIZE := 2\<rparr>))
   \<and> three_classes \<lparr>forward = stub_forward, placement = Cpu\<rparr>
   \<and> classify_nli (stub_state Cpu) (default_config\<lparr>BATCH_SIZE := 2\<rparr>)
     \<lparr>pairs = [\<lparr>premise = ''a'', hypothesis = ''bc''\<rparr>, \<lparr>premise = ''abc'', hypothesis = ''d''\<rparr>,
               \<lparr>premise = ''x'', hypothesis = ''yz''\<rparr>], req_model = None\<rparr>
   = ([[\<lparr>premise = ''a'', hypothesis = ''bc''\<rparr>, \<lparr>premise = ''abc'', hypothesis = ''d''\<rparr>],
       [\<lparr>premise = ''x'', hypothesis = ''yz''\<rparr>]],
      Inr \<lparr>results =
         [\<lparr>label = ''neutral'', confidence = 1 / 2,
           scores = [(''contradiction'', 1 / 4), (''neutral'', 1 / 2), (''entailment'', 1 / 4)]\<rparr>,
          \<lparr>label = ''contradiction'', confidence = 1 / 2,
           scores = [(''contradiction'', 1 / 2), (''neutral'', 1 / 4), (''entailment'', 1 / 4)]\<rparr>,
          \<lparr>label = ''neutral'', confidence = 1 / 2,
           scores = [(''contradiction'', 1 / 4), (''neutral'', 1 / 2), (''entailment'', 1 / 4)]\<rparr>]\<rparr>)
   \<and> (\<exists>resp. snd (classify_nli (stub_state Cpu) (default_config\<lparr>BATCH_SIZE := 2\<rparr>)
     \<lparr>pairs = [\<lparr>premise = ''a'', hypothesis = ''bc''\<rparr>, \<lparr>premise = ''abc'', hypothesis = ''d''\<rparr>,
               \<lparr>premise = ''x'', hypothesis = ''yz''\<rparr>], req_model = None\<rparr>) = Inr resp
        \<and> length (results resp) = 3)"
proof -
  let ?cfg = "default_config\<lparr>BATCH_SIZE := 2\<rparr>"
  let ?req = "\<lparr>pairs = [\<lparr>premise = ''a'', hypothesis = ''bc''\<rparr>,
      \<lparr>premise = ''abc'', hypothesis = ''d''\<rparr>, \<lparr>premise = ''x'', hypothesis = ''yz''\<rparr>],
      req_model = None\<rparr>"
  have ne: "pairs ?req \<noteq> []" and cap: "length (pairs ?req) \<le> 100"
    and bs: "0 \<le> BATCH_SIZE ?cfg" and pos: "0 < BATCH_SIZE ?cfg" by simp_all
  have shape: "0 < BATCH_SIZE ?cfg \<and> tokenizer (stub_state Cpu) = Some stub_tokenizer
      \<and> model (stub_state Cpu) = Some \<lparr>forward = stub_forward, placement = Cpu\<rparr>
      \<and> one_row_per_pair stub_tokenizer \<lparr>forward = stub_forward, placement = Cpu\<rparr>
           (MAX_LENGTH ?cfg)
      \<and> three_classes \<lparr>forward = stub_forward, placement = Cpu\<rparr>"
    by (simp add: stub_state_sel stub_one_row_per_pair stub_three_classes)
  from classify_nli_keeps_length_and_order [OF load_stub_two ne cap bs] shape
  obtain resp where resp: "snd (classify_nli (stub_state Cpu) ?cfg ?req) = Inr resp"
    and len: "length (results resp) = length (pairs ?req)"
    by blast
  have "\<exists>resp. snd (classify_nli (stub_state Cpu) ?cfg ?req) = Inr resp
        \<and> length (results resp) = 3"
    using resp len by auto
  then show ?thesis
    using load_stub_two pos shape stub_three_pairs by simp
qed

subsection \<open>The score table\<close>




text \<open>
  C3. In every result the classifier returns, the score table maps the reported label to
  the reported confidence, and no entry of the table exceeds that confidence.
\<close>

theorem label_is_argmax_of_scores:
  assumes load: "load_model h cfg st0 = Inr st"
    and ret: "(\<exists>ps rs. classify_batch st cfg ps = Inr rs \<and> r \<in> set rs)
       \<or> (\<exists>request resp. snd (classify_nli st cfg request) = Inr resp \<and> r \<in> set (results resp))"
  shows "map_of (scores r) (label r) = Some (confidence r)
     \<and> (\<forall>(l, p) \<in> set (scores r). p \<le> confidence r)"
proof -
  from returned_item [OF load ret] obtain lm probs idx where
    lm: "lm = LABEL_MAP \<or> lm = DEBERTA_LABEL_MAP"
    and item: "result_item lm probs idx = Inr r" by blast
  let ?row = "probs ! idx"
  from result_item_loaded [OF lm item] obtain k where
    len: "3 \<le> length ?row" and k: "k < 3" "argmax ?row = Some k"
    and lab: "label r = the (map_of lm k)" and conf: "confidence r = ?row ! k"
    and sc: "scores r = [(the (map_of lm 0), ?row ! 0), (the (map_of lm 1), ?row ! 1),
                (the (map_of lm 2), ?row ! 2)]" by blast
  have k3: "k = 0 \<or> k = 1 \<or> k = 2" using k(1) by auto
  have mx: "\<forall>j<length ?row. ?row ! j \<le> ?row ! k" using argmax_spec [OF k(2)] by simp
  have "map_of (scores r) (label r) = Some (confidence r)"
    using lm k3 by (auto simp add: sc lab conf LABEL_MAP_def DEBERTA_LABEL_MAP_def)
  moreover have "?row ! 0 \<le> ?row ! k" "?row ! 1 \<le> ?row ! k" "?row ! 2 \<le> ?row ! k"
  proof -
    have "0 < length ?row" "1 < length ?row" "2 < length ?row" using len by linarith+
    then show "?row ! 0 \<le> ?row ! k" "?row ! 1 \<le> ?row ! k" "?row ! 2 \<le> ?row ! k"
      using mx by blast+
  qed
  then have "\<forall>(l, p) \<in> set (scores r). p \<le> confidence r"
    by (simp add: sc conf)
  ultimately show ?thesis by simp
qed

theorem label_is_argmax_of_scores_witness:
  "load_model (stub_hub False) (default_config\<lparr>BATCH_SIZE := 2\<rparr>) initial_state
     = Inr (stub_state Cpu)
   \<and> classify_batch (stub_state Cpu) (default_config\<lparr>BATCH_SIZE := 2\<rparr>)
       [\<lparr>premise = ''x'', hypothesis = ''yz''\<rparr>]
     = Inr [\<lparr>label = ''neutral'', confidence = 1 / 2,
           scores = [(''contradiction'', 1 / 4), (''neutral'', 1 / 2), (''entailment'', 1 / 4)]\<rparr>]
   \<and> map_of [(''contradiction'', 1 / 4), (''neutral'', 1 / 2), (''entailment'', 1 / 4 :: real)]
        ''neutral'' = Some (1 / 2)"
proof -
  let ?r = "\<lparr>label = ''neutral'', confidence = 1 / 2,
           scores = [(''contradiction'', 1 / 4), (''neutral'', 1 / 2), (''entailment'', 1 / 4)]\<rparr>"
  have ret: "(\<exists>ps rs. classify_batch (stub_state Cpu) (default_config\<lparr>BATCH_SIZE := 2\<rparr>) ps
                 = Inr rs \<and> ?r \<in> set rs)
       \<or> (\<exists>request resp. snd (classify_nli (stub_state Cpu) (default_config\<lparr>BATCH_SIZE := 2\<rparr>)
              request) = Inr resp \<and> ?r \<in> set (results resp))"
    by (rule disjI1, rule exI [of _ "[\<lparr>premise = ''x'', hypothesis = ''yz''\<rparr>]"],
        rule exI [of _ "[?r]"]) (simp add: stub_batch_one)
  show ?thesis
    using load_stub_two stub_batch_one label_is_argmax_of_scores [OF load_stub_two ret] by simp
qed

subsection \<open>The label map\<close>

text \<open>
  C4. In a process that came up, \<open>load_model\<close> chose the label map from the model
  identifier: the DeBERTa order (0 contradiction, 1 neutral, 2 entailment) when the identifier
  contains \<open>deberta\<close> in any case, and the order 0 entailment, 1 neutral, 2 contradiction
  otherwise. Either map sends the indices 0, 1, 2 to the three canonical labels, each once.
  Every reply of the process is the handler's reply on the state \<open>load_model\<close> left. In every
  \<open>/nli\<close> response, the result at position \<open>p\<close> comes from slot \<open>j\<close> of the batch in which
  pair \<open>p\<close> was submitted: its label is that one map applied to the first maximal index of
  the probabilities the checkpoint gave for that slot, its confidence is that maximal
  probability, and its score table is that map applied to the first three probabilities.
\<close>

theorem label_map_fixed_at_load:
  assumes run: "lifespan h cfg reqs = Inr reps"
  shows "\<exists>st lm. load_model h cfg initial_state = Inr st
      \<and> label_map st = Some lm
      \<and> lm = (if contains ''deberta'' (lower (NLI_MODEL cfg))
              then [(0, ''contradiction''), (1, ''neutral''), (2, ''entailment'')]
              else [(0, ''entailment''), (1, ''neutral''), (2, ''contradiction'')])
      \<and> map fst lm = [0, 1, 2] \<and> distinct (map snd lm) \<and> set (map snd lm) = canonical_labels
      \<and> length reps = length reqs
      \<and> (\<forall>i<length reqs.
            (reqs ! i = Health \<longrightarrow> reps ! i = HealthReply (health_check st cfg))
          \<and> (\<forall>req. reqs ! i = Nli req \<longrightarrow>
               reps ! i = NliReply (snd (classify_nli st cfg req))
             \<and> (\<forall>resp p. snd (classify_nli st cfg req) = Inr resp \<and> p < length (results resp)
                  \<longrightarrow> (\<exists>q j probs k.
                         q < length (fst (classify_nli st cfg req))
                       \<and> j < length (fst (classify_nli st cfg req) ! q)
                       \<and> p = length (concat (take q (fst (classify_nli st cfg req)))) + j
                       \<and> batch_probs st cfg (fst (classify_nli st cfg req) ! q) = Inr probs
                       \<and> argmax (probs ! j) = Some k
                       \<and> map_of lm k = Some (label (results resp ! p))
                       \<and> confidence (results resp ! p) = probs ! j ! k
                       \<and> scores (results resp ! p) = map (\<lambda>(c, l). (l, probs ! j ! c)) lm))))"
proof -
  from run obtain st where load: "load_model h cfg initial_state = Inr st"
    and reps: "reps = map (handle st cfg) reqs"
    by (auto simp add: lifespan_def split: sum.splits)
  define lm where "lm = (if contains ''deberta'' (lower (NLI_MODEL cfg))
              then DEBERTA_LABEL_MAP else LABEL_MAP)"
  have lm: "label_map st = Some lm"
    using load by (auto simp add: load_model_def Let_def lm_def split: sum.splits)
  have ld: "lm = LABEL_MAP \<or> lm = DEBERTA_LABEL_MAP" by (simp add: lm_def)
  have perm: "map fst lm = [0, 1, 2] \<and> distinct (map snd lm) \<and> set (map snd lm) = canonical_labels"
    using label_maps_permute by (simp add: lm_def)
  have lmeq: "lm = (if contains ''deberta'' (lower (NLI_MODEL cfg))
              then [(0, ''contradiction''), (1, ''neutral''), (2, ''entailment'')]
              else [(0, ''entailment''), (1, ''neutral''), (2, ''contradiction'')])"
    by (simp add: lm_def LABEL_MAP_def DEBERTA_LABEL_MAP_def)
  have use: "\<exists>q j probs k.
                         q < length (fst (classify_nli st cfg req))
                       \<and> j < length (fst (classify_nli st cfg req) ! q)
                       \<and> p = length (concat (take q (fst (classify_nli st cfg req)))) + j
                       \<and> batch_probs st cfg (fst (classify_nli st cfg req) ! q) = Inr probs
                       \<and> argmax (probs ! j) = Some k
                       \<and> map_of lm k = Some (label (results resp ! p))
                       \<and> confidence (results resp ! p) = probs ! j ! k
                       \<and> scores (results resp ! p) = map (\<lambda>(c, l). (l, probs ! j ! c)) lm"
    if ret: "snd (classify_nli st cfg req) = Inr resp" and p: "p < length (results resp)"
    for req resp p
  proof -
    let ?calls = "fst (classify_nli st cfg req)"
    from classify_nli_aligned [OF lm ret] obtain rss where
      res: "results resp = concat rss"
      and al: "list_all2 (\<lambda>b rs. length rs = length b
          \<and> (\<exists>probs. batch_probs st cfg b = Inr probs
                \<and> (\<forall>j<length b. result_item lm probs j = Inr (rs ! j)))) ?calls rss"
      by blast
    from al have al': "list_all2 (\<lambda>b r. length r = length b) ?calls rss"
      by (rule list_all2_mono) simp
    have "length (concat rss) = length (concat ?calls)"
      using al' by (induction rule: list_all2_induct) simp_all
    with p res have "p < length (concat ?calls)" by simp
    from concat_aligned_nth [OF al' this] obtain q j where
      qj: "q < length ?calls" "j < length (?calls ! q)"
        "p = length (concat (take q ?calls)) + j" "concat rss ! p = rss ! q ! j" by blast
    from list_all2_nthD [OF al qj(1)] obtain probs where
      probs: "batch_probs st cfg (?calls ! q) = Inr probs"
      and items: "\<forall>j<length (?calls ! q). result_item lm probs j = Inr (rss ! q ! j)" by blast
    from items qj(2,4) res have item: "result_item lm probs j = Inr (results resp ! p)" by simp
    from result_item_loaded [OF ld item] obtain k where
      k: "k < 3" "argmax (probs ! j) = Some k" "label (results resp ! p) = the (map_of lm k)"
        "confidence (results resp ! p) = probs ! j ! k"
      and sc: "scores (results resp ! p) =
         [(the (map_of lm 0), probs ! j ! 0), (the (map_of lm 1), probs ! j ! 1),
          (the (map_of lm 2), probs ! j ! 2)]" by blast
    have lab: "map_of lm k = Some (label (results resp ! p))"
      using k(1,3) by (subst map_of_loaded [OF ld]) simp
    have sc': "scores (results resp ! p) = map (\<lambda>(c, l). (l, probs ! j ! c)) lm"
      unfolding sc by (rule scores_from_map [OF ld])
    from qj(1,2,3) probs k(2) lab k(4) sc' show ?thesis by blast
  qed
  have each: "(reqs ! i = Health \<longrightarrow> reps ! i = HealthReply (health_check st cfg))
          \<and> (\<forall>req. reqs ! i = Nli req \<longrightarrow>
               reps ! i = NliReply (snd (classify_nli st cfg req))
             \<and> (\<forall>resp p. snd (classify_nli st cfg req) = Inr resp \<and> p < length (results resp)
                  \<longrightarrow> (\<exists>q j probs k.
                         q < length (fst (classify_nli st cfg req))
                       \<and> j < length (fst (classify_nli st cfg req) ! q)
                       \<and> p = length (concat (take q (fst (classify_nli st cfg req)))) + j
                       \<and> batch_probs st cfg (fst (classify_nli st cfg req) ! q) = Inr probs
                       \<and> argmax (probs ! j) = Some k
                       \<and> map_of lm k = Some (label (results resp ! p))
                       \<and> confidence (results resp ! p) = probs ! j ! k
                       \<and> scores (results resp ! p) = map (\<lambda>(c, l). (l, probs ! j ! c)) lm)))"
    if "i < length reqs" for i
  proof -
    have r: "reps ! i = handle st cfg (reqs ! i)" using that reps by simp
    show ?thesis using r use by auto
  qed
  show ?thesis
  proof (intro exI conjI)
    show "load_model h cfg initial_state = Inr st" by (rule load)
    show "label_map st = Some lm" by (rule lm)
    show "lm = (if contains ''deberta'' (lower (NLI_MODEL cfg))
              then [(0, ''contradiction''), (1, ''neutral''), (2, ''entailment'')]
              else [(0, ''entailment''), (1, ''neutral''), (2, ''contradiction'')])"
      by (rule lmeq)
    show "map fst lm = [0, 1, 2]" "distinct (map snd lm)" "set (map snd lm) = canonical_labels"
      using perm by simp_all
    show "length reps = length reqs" using reps by simp
    show "\<forall>i<length reqs.
            (reqs ! i = Health \<longrightarrow> reps ! i = HealthReply (health_check st cfg))
          \<and> (\<forall>req. reqs ! i = Nli req \<longrightarrow>
               reps ! i = NliReply (snd (classify_nli st cfg req))
             \<and> (\<forall>resp p. snd (classify_nli st cfg req) = Inr resp \<and> p < length (results resp)
                  \<longrightarrow> (\<exists>q j probs k.
                         q < length (fst (classify_nli st cfg req))
                       \<and> j < length (fst (classify_nli st cfg req) ! q)
                       \<and> p = length (concat (take q (fst (classify_nli st cfg req)))) + j
                       \<and> batch_probs st cfg (fst (classify_nli st cfg req) ! q) = Inr probs
                       \<and> argmax (probs ! j) = Some k
                       \<and> map_of lm k = Some (label (results resp ! p))
                       \<and> confidence (results resp ! p) = probs ! j ! k
                       \<and> scores (results resp ! p) = map (\<lambda>(c, l). (l, probs ! j ! c)) lm)))"
      using each by blast
  qed
qed

theorem label_map_fixed_at_load_witness:
  "lifespan (stub_hub False) (default_config\<lparr>BATCH_SIZE := 2\<rparr>)
      [Nli \<lparr>pairs = [\<lparr>premise = ''a'', hypothesis = ''bc''\<rparr>,
                     \<lparr>premise = ''abc'', hypothesis = ''d''\<rparr>,
                     \<lparr>premise = ''x'', hypothesis = ''yz''\<rparr>], req_model = None\<rparr>, Health]
     = Inr [NliReply (Inr \<lparr>results =
         [\<lparr>label = ''neutral'', confidence = 1 / 2,
           scores = [(''contradiction'', 1 / 4), (''neutral'', 1 / 2), (''entailment'', 1 / 4)]\<rparr>,
          \<lparr>label = ''contradiction'', confidence = 1 / 2,
           scores = [(''contradiction'', 1 / 2), (''neutral'', 1 / 4), (''entailment'', 1 / 4)]\<rparr>,
          \<lparr>label = ''neutral'', confidence = 1 / 2,
           scores = [(''contradiction'', 1 / 4), (''neutral'', 1 / 2), (''entailment'', 1 / 4)]\<rparr>]\<rparr>),
        HealthReply (Inr \<lparr>status = ''healthy'',
          health_model = ''microsoft/deberta-v3-large-mnli'', device = ''cpu''\<rparr>)]
   \<and> contains ''deberta'' (lower (NLI_MODEL (default_config\<lparr>BATCH_SIZE := 2\<rparr>)))
   \<and> label_map (stub_state Cpu)
       = Some [(0, ''contradiction''), (1, ''neutral''), (2, ''entailment'')]
   \<and> \<not> contains ''deberta'' (lower ''roberta-large-mnli'')
   \<and> contains ''deberta'' (lower ''Microsoft/DeBERTa-v3-base'')"
proof -
  let ?cfg = "default_config\<lparr>BATCH_SIZE := 2\<rparr>"
  let ?reqs = "[Nli \<lparr>pairs = [\<lparr>premise = ''a'', hypothesis = ''bc''\<rparr>,
                     \<lparr>premise = ''abc'', hypothesis = ''d''\<rparr>,
                     \<lparr>premise = ''x'', hypothesis = ''yz''\<rparr>], req_model = None\<rparr>, Health]"
  let ?reps = "[NliReply (Inr \<lparr>results =
         [\<lparr>label = ''neutral'', confidence = 1 / 2,
           scores = [(''contradiction'', 1 / 4), (''neutral'', 1 / 2), (''entailment'', 1 / 4)]\<rparr>,
          \<lparr>label = ''contradiction'', confidence = 1 / 2,
           scores = [(''contradiction'', 1 / 2), (''neutral'', 1 / 4), (''entailment'', 1 / 4)]\<rparr>,
          \<lparr>label = ''neutral'', confidence = 1 / 2,
           scores = [(''contradiction'', 1 / 4), (''neutral'', 1 / 2), (''entailment'', 1 / 4)]\<rparr>]\<rparr>),
        HealthReply (Inr \<lparr>status = ''healthy'',
          health_model = ''microsoft/deberta-v3-large-mnli'', device = ''cpu''\<rparr>)]"
  have run: "lifespan (stub_hub False) ?cfg ?reqs = Inr ?reps"
    by (simp add: lifespan_def load_stub_two stub_three_pairs health_check_def stub_state_sel
        default_config_sel)
  have a: "\<not> contains ''deberta'' (lower ''roberta-large-mnli'')" by code_simp
  have b: "contains ''deberta'' (lower ''Microsoft/DeBERTa-v3-base'')" by code_simp
  from label_map_fixed_at_load [OF run] obtain st lm where
    "load_model (stub_hub False) ?cfg initial_state = Inr st"
    "label_map st = Some lm"
    "lm = (if contains ''deberta'' (lower (NLI_MODEL ?cfg))
              then [(0, ''contradiction''), (1, ''neutral''), (2, ''entailment'')]
              else [(0, ''entailment''), (1, ''neutral''), (2, ''contradiction'')])"
    by blast
  then have "label_map (stub_state Cpu)
       = Some [(0, ''contradiction''), (1, ''neutral''), (2, ''entailment'')]"
    using default_model_is_deberta by (simp add: load_stub_two default_config_sel)
  then show ?thesis
    using run a b default_model_is_deberta by (simp add: default_config_sel)
qed

subsection \<open>Batch boundaries\<close>

text \<open>
  C5, as the specification states it, fails. The handler gives each batch to the checkpoint
  as a whole, so what comes back for a pair may depend on its batch: with a checkpoint whose
  logits depend on the number of pairs in the batch, three pairs in batches of two get other
  results than the same three pairs in one batch. With a negative batch size the handler's
  loop runs no batch and returns no result, while one call of the classifier returns one
  result per pair.
\<close>

theorem batch_boundary_counterexample:
  "load_model (hub_with batch_aware_forward) (default_config\<lparr>BATCH_SIZE := 2\<rparr>) initial_state
     = Inr (state_with batch_aware_forward)
   \<and> snd (classify_nli (state_with batch_aware_forward) (default_config\<lparr>BATCH_SIZE := 2\<rparr>)
       \<lparr>pairs = [\<lparr>premise = ''a'', hypothesis = ''bc''\<rparr>, \<lparr>premise = ''abc'', hypothesis = ''d''\<rparr>,
                 \<lparr>premise = ''x'', hypothesis = ''yz''\<rparr>], req_model = None\<rparr>)
     = Inr \<lparr>results =
         [\<lparr>label = ''contradiction'', confidence = 1 / 2,
           scores = [(''contradiction'', 1 / 2), (''neutral'', 1 / 4), (''entailment'', 1 / 4)]\<rparr>,
          \<lparr>label = ''contradiction'', confidence = 1 / 2,
           scores = [(''contradiction'', 1 / 2), (''neutral'', 1 / 4), (''entailment'', 1 / 4)]\<rparr>,
          \<lparr>label = ''neutral'', confidence = 1 / 2,
           scores = [(''contradiction'', 1 / 4), (''neutral'', 1 / 2), (''entailment'', 1 / 4)]\<rparr>]\<rparr>
   \<and> classify_batch (state_with batch_aware_forward) (default_config\<lparr>BATCH_SIZE := 2\<rparr>)
       [\<lparr>premise = ''a'', hypothesis = ''bc''\<rparr>, \<lparr>premise = ''abc'', hypothesis = ''d''\<rparr>,
        \<lparr>premise = ''x'', hypothesis = ''yz''\<rparr>]
     = Inr [\<lparr>label = ''contradiction'', confidence = 1 / 2,
           scores = [(''contradiction'', 1 / 2), (''neutral'', 1 / 4), (''entailment'', 1 / 4)]\<rparr>,
          \<lparr>label = ''contradiction'', confidence = 1 / 2,
           scores = [(''contradiction'', 1 / 2), (''neutral'', 1 / 4), (''entailment'', 1 / 4)]\<rparr>,
          \<lparr>label = ''contradiction'', confidence = 1 / 2,
           scores = [(''contradiction'', 1 / 2), (''neutral'', 1 / 4), (''entailment'', 1 / 4)]\<rparr>]
   \<and> snd (classify_nli (stub_state Cpu) (default_config\<lparr>BATCH_SIZE := - 1\<rparr>)
       \<lparr>pairs = [\<lparr>premise = ''x'', hypothesis = ''yz''\<rparr>], req_model = None\<rparr>)
     = Inr \<lparr>results = []\<rparr>
   \<and> classify_batch (stub_state Cpu) (default_config\<lparr>BATCH_SIZE := - 1\<rparr>)
       [\<lparr>premise = ''x'', hypothesis = ''yz''\<rparr>]
     = Inr [\<lparr>label = ''neutral'', confidence = 1 / 2,
           scores = [(''contradiction'', 1 / 4), (''neutral'', 1 / 2), (''entailment'', 1 / 4)]\<rparr>]"
proof -
  have a: "load_model (hub_with batch_aware_forward) (default_config\<lparr>BATCH_SIZE := 2\<rparr>)
      initial_state = Inr (state_with batch_aware_forward)"
    by (simp add: load_model_with default_config_sel)
  have b: "snd (classify_nli (state_with batch_aware_forward) (default_config\<lparr>BATCH_SIZE := 2\<rparr>)
       \<lparr>pairs = [\<lparr>premise = ''a'', hypothesis = ''bc''\<rparr>, \<lparr>premise = ''abc'', hypothesis = ''d''\<rparr>,
                 \<lparr>premise = ''x'', hypothesis = ''yz''\<rparr>], req_model = None\<rparr>)
     = Inr \<lparr>results =
         [\<lparr>label = ''contradiction'', confidence = 1 / 2,
           scores = [(''contradiction'', 1 / 2), (''neutral'', 1 / 4), (''entailment'', 1 / 4)]\<rparr>,
          \<lparr>label = ''contradiction'', confidence = 1 / 2,
           scores = [(''contradiction'', 1 / 2), (''neutral'', 1 / 4), (''entailment'', 1 / 4)]\<rparr>,
          \<lparr>label = ''neutral'', confidence = 1 / 2,
           scores = [(''contradiction'', 1 / 4), (''neutral'', 1 / 2), (''entailment'', 1 / 4)]\<rparr>]\<rparr>"
    by (simp add: classify_nli_def state_with_sel three_pairs_range_and_slices
        batch_aware_two batch_aware_one)
  have r: "py_range 0 1 (- 1) = Some []" by (simp add: py_range_def)
  have c: "snd (classify_nli (stub_state Cpu) (default_config\<lparr>BATCH_SIZE := - 1\<rparr>)
       \<lparr>pairs = [\<lparr>premise = ''x'', hypothesis = ''yz''\<rparr>], req_model = None\<rparr>)
     = Inr \<lparr>results = []\<rparr>"
    by (simp add: classify_nli_def stub_state_sel r)
  have d: "classify_batch (stub_state Cpu) (default_config\<lparr>BATCH_SIZE := - 1\<rparr>)
       [\<lparr>premise = ''x'', hypothesis = ''yz''\<rparr>]
     = Inr [\<lparr>label = ''neutral'', confidence = 1 / 2,
           scores = [(''contradiction'', 1 / 4), (''neutral'', 1 / 2), (''entailment'', 1 / 4)]\<rparr>]"
    by (simp add: classify_batch_def batch_probs_def stub_state_def stub_tokenizer_def
      stub_forward_def py_slice_def py_bound_def default_config_sel softmax_def
      result_item_def DEBERTA_LABEL_MAP_def upt3)
  show ?thesis using a b batch_aware_three c d by simp
qed

text \<open>
  C5, amended. When the logits of a pair do not depend on the other pairs of its batch and
  the batch size is positive, the handler's loop over contiguous batches gives exactly what
  one call of the classifier on the whole pair list gives (the same results, or the same
  exception); for a request the handler admits, that is the content of its response. The
  batches, concatenated, are the pair list. In particular 40 pairs in batches of 16 give what
  the 40 pairs give as one batch.
\<close>

theorem batch_boundary_invariance:
  assumes load: "load_model h cfg st0 = Inr st"
    and tok: "tokenizer st = Some tok" and m: "model st = Some m"
    and pw: "pairwise tok m (MAX_LENGTH cfg) row"
    and bs: "0 < BATCH_SIZE cfg"
  shows "\<exists>starts. py_range 0 (int (length ps)) (BATCH_SIZE cfg) = Some starts
      \<and> concat (map (\<lambda>i. py_slice ps i (i + BATCH_SIZE cfg)) starts) = ps
      \<and> snd (nli_loop st cfg ps starts [] []) = classify_batch st cfg ps
      \<and> (ps \<noteq> [] \<and> length ps \<le> 100 \<longrightarrow>
           snd (classify_nli st cfg \<lparr>pairs = ps, req_model = mo\<rparr>) =
             (case classify_batch st cfg ps of
                Inl e \<Rightarrow> Inl e | Inr rs \<Rightarrow> Inr \<lparr>results = rs\<rparr>))"
proof -
  from load_model_state [OF load] obtain lm where lm: "label_map st = Some lm" by blast
  let ?F = "\<lambda>p. result_item lm
        [softmax (row (py_slice (premise p) 0 (MAX_LENGTH cfg))
                      (py_slice (hypothesis p) 0 (MAX_LENGTH cfg)))] 0"
  let ?slice = "\<lambda>i. py_slice ps i (i + BATCH_SIZE cfg)"
  have cb: "classify_batch st cfg b = collect (map ?F b)" for b
    using tok m lm pw by (rule classify_batch_pairwise)
  from chunks_of_pairs [OF bs, of ps] obtain starts where
    starts: "py_range 0 (int (length ps)) (BATCH_SIZE cfg) = Some starts"
    and cover: "concat (map ?slice starts) = ps" by blast
  have "snd (nli_loop st cfg ps starts [] []) =
      (case collect (map (\<lambda>c. collect (map ?F c)) (map ?slice starts)) of
         Inl e \<Rightarrow> Inl e | Inr rss \<Rightarrow> Inr (concat rss))"
    by (simp add: nli_loop_snd cb comp_def split: sum.splits)
  also have "\<dots> = collect (map ?F (concat (map ?slice starts)))"
    by (rule collect_concat)
  also have "\<dots> = classify_batch st cfg ps" by (simp only: cover cb)
  finally have loop: "snd (nli_loop st cfg ps starts [] []) = classify_batch st cfg ps" .
  have "snd (classify_nli st cfg \<lparr>pairs = ps, req_model = mo\<rparr>) =
             (case classify_batch st cfg ps of
                Inl e \<Rightarrow> Inl e | Inr rs \<Rightarrow> Inr \<lparr>results = rs\<rparr>)"
    if "ps \<noteq> [] \<and> length ps \<le> 100"
    using that tok m starts loop by (simp add: classify_nli_snd)
  with starts cover loop show ?thesis by blast
qed

theorem batch_boundary_invariance_witness:
  "load_model (stub_hub False) default_config initial_state = Inr (stub_state Cpu)
   \<and> pairwise stub_tokenizer \<lparr>forward = stub_forward, placement = Cpu\<rparr>
        (MAX_LENGTH default_config) stub_row
   \<and> BATCH_SIZE default_config = 16
   \<and> length (concat (replicate 20 [\<lparr>premise = ''a'', hypothesis = ''bc''\<rparr>,
        \<lparr>premise = ''abc'', hypothesis = ''d''\<rparr>])) = 40
   \<and> py_range 0 40 16 = Some [0, 16, 32]
   \<and> snd (classify_nli (stub_state Cpu) default_config
        \<lparr>pairs = concat (replicate 20 [\<lparr>premise = ''a'', hypothesis = ''bc''\<rparr>,
            \<lparr>premise = ''abc'', hypothesis = ''d''\<rparr>]), req_model = None\<rparr>)
     = (case classify_batch (stub_state Cpu) default_config
          (concat (replicate 20 [\<lparr>premise = ''a'', hypothesis = ''bc''\<rparr>,
            \<lparr>premise = ''abc'', hypothesis = ''d''\<rparr>])) of
          Inl e \<Rightarrow> Inl e | Inr rs \<Rightarrow> Inr \<lparr>results = rs\<rparr>)"
proof -
  let ?ps = "concat (replicate 20 [\<lparr>premise = ''a'', hypothesis = ''bc''\<rparr>,
            \<lparr>premise = ''abc'', hypothesis = ''d''\<rparr>])"
  have len: "length ?ps = 40" by (simp add: length_concat sum_list_replicate)
  have bs: "0 < BATCH_SIZE default_config" by (simp add: default_config_sel)
  have r: "py_range 0 40 16 = Some [0, 16, 32]"
    by (simp add: py_range_def upt3)
  have ok: "?ps \<noteq> [] \<and> length ?ps \<le> 100" using len by auto
  from batch_boundary_invariance [OF load_stub_default stub_state_sel(2) stub_state_sel(1) stub_pairwise bs,
      of ?ps None] ok
  have "snd (classify_nli (stub_state Cpu) default_config \<lparr>pairs = ?ps, req_model = None\<rparr>)
     = (case classify_batch (stub_state Cpu) default_config ?ps of
          Inl e \<Rightarrow> Inl e | Inr rs \<Rightarrow> Inr \<lparr>results = rs\<rparr>)"
    by blast
  then show ?thesis
    using load_stub_default stub_pairwise [of Cpu "MAX_LENGTH default_config"] len r
    by (simp add: default_config_sel)
qed

subsection \<open>Readiness and request validation\<close>

text \<open>
  C8. While the model or the tokenizer is not loaded, every \<open>/nli\<close> request is answered with
  503 "Model not loaded" and no batch reaches the classifier, whatever the pair list holds:
  the readiness check is the first thing the handler does.
\<close>

theorem classify_nli_not_ready:
  assumes "model st = None \<or> tokenizer st = None"
  shows "classify_nli st cfg request = ([], Inl (HTTPException 503 ''Model not loaded''))
         \<and> status_code (snd (classify_nli st cfg request)) = 503"
  using assms by (simp add: classify_nli_def)

theorem classify_nli_not_ready_witness:
  "(model (initial_state :: stub_enc service_state) = None
      \<or> tokenizer (initial_state :: stub_enc service_state) = None)
   \<and> status_code (snd (classify_nli (initial_state :: stub_enc service_state) default_config
        \<lparr>pairs = [], req_model = None\<rparr>)) = 503
   \<and> classify_nli (initial_state :: stub_enc service_state) default_config
        \<lparr>pairs = replicate 101 \<lparr>premise = ''a'', hypothesis = ''b''\<rparr>, req_model = None\<rparr>
      = ([], Inl (HTTPException 503 ''Model not loaded''))"
proof -
  have h: "model (initial_state :: stub_enc service_state) = None
             \<or> tokenizer (initial_state :: stub_enc service_state) = None"
    by (simp add: initial_state_def)
  show ?thesis
    using h classify_nli_not_ready [OF h, of default_config "\<lparr>pairs = [], req_model = None\<rparr>"]
      classify_nli_not_ready [OF h, of default_config
        "\<lparr>pairs = replicate 101 \<lparr>premise = ''a'', hypothesis = ''b''\<rparr>, req_model = None\<rparr>"]
    by simp
qed

text \<open>
  C6, as the specification states it, fails: before the model is loaded an empty pair list is
  answered with 503, not with success.
\<close>

theorem empty_pairs_not_ready_counterexample:
  "status_code (snd (classify_nli (initial_state :: stub_enc service_state) default_config
     \<lparr>pairs = [], req_model = None\<rparr>)) = 503"
  by (simp add: classify_nli_def initial_state_def)

text \<open>
  C6, amended. A \<open>/nli\<close> request with an empty pair list causes no compute; once the model
  and the tokenizer are loaded it succeeds with the empty result list (status 200), and
  before that it is answered with 503.
\<close>

theorem classify_nli_empty:
  assumes "pairs request = []"
  shows "classify_nli st cfg request =
           ([], if model st = None \<or> tokenizer st = None
                then Inl (HTTPException 503 ''Model not loaded'')
                else Inr \<lparr>results = []\<rparr>)"
  using assms by (simp add: classify_nli_def)

theorem classify_nli_empty_witness:
  "pairs \<lparr>pairs = [], req_model = Some ''other''\<rparr> = []
   \<and> classify_nli (stub_state Cpu) default_config \<lparr>pairs = [], req_model = Some ''other''\<rparr>
       = ([], Inr \<lparr>results = []\<rparr>)
   \<and> status_code (snd (classify_nli (stub_state Cpu) default_config
        \<lparr>pairs = [], req_model = Some ''other''\<rparr>)) = 200"
  using classify_nli_empty [of "\<lparr>pairs = [], req_model = Some ''other''\<rparr>"
      "stub_state Cpu" default_config]
  by (simp add: stub_state_ready)

text \<open>
  C7, as the specification states it, fails: before the model is loaded a request with 101
  pairs is answered with 503, not with 400.
\<close>

theorem too_many_pairs_not_ready_counterexample:
  "status_code (snd (classify_nli (initial_state :: stub_enc service_state) default_config
     \<lparr>pairs = replicate 101 \<lparr>premise = ''a'', hypothesis = ''b''\<rparr>, req_model = None\<rparr>))
   = 503"
  by (simp add: classify_nli_def initial_state_def)

text \<open>
  C7, amended. A \<open>/nli\<close> request with more than 100 pairs is rejected and no batch reaches
  the classifier; the rejection is 400 "Maximum 100 pairs per request" once the model and
  the tokenizer are loaded, and 503 before that.
\<close>

theorem classify_nli_too_many:
  assumes "length (pairs request) > 100"
  shows "classify_nli st cfg request =
           ([], if model st = None \<or> tokenizer st = None
                then Inl (HTTPException 503 ''Model not loaded'')
                else Inl (HTTPException 400 ''Maximum 100 pairs per request''))"
  using assms by (auto simp add: classify_nli_def)

theorem classify_nli_too_many_witness:
  "length (pairs \<lparr>pairs = replicate 101 \<lparr>premise = ''a'', hypothesis = ''b''\<rparr>,
                  req_model = None\<rparr>) > 100
   \<and> classify_nli (stub_state Cpu) default_config
        \<lparr>pairs = replicate 101 \<lparr>premise = ''a'', hypothesis = ''b''\<rparr>, req_model = None\<rparr>
       = ([], Inl (HTTPException 400 ''Maximum 100 pairs per request''))"
  using classify_nli_too_many
    [of "\<lparr>pairs = replicate 101 \<lparr>premise = ''a'', hypothesis = ''b''\<rparr>, req_model = None\<rparr>"
      "stub_state Cpu" default_config]
  by (simp add: stub_state_ready)

subsection \<open>Health\<close>

text \<open>
  C10, as the specification states it, fails on the device: with \<open>DEVICE = cuda\<close> and no
  accelerator available, \<open>load_model\<close> leaves the checkpoint on the processor, and the
  health reply still says \<open>cuda\<close>.
\<close>

theorem health_device_counterexample:
  "load_model (stub_hub False) (default_config\<lparr>DEVICE := ''cuda''\<rparr>) initial_state
     = Inr (stub_state Cpu)
   \<and> health_check (stub_state Cpu) (default_config\<lparr>DEVICE := ''cuda''\<rparr>)
     = Inr \<lparr>status = ''healthy'', health_model = ''microsoft/deberta-v3-large-mnli'',
            device = ''cuda''\<rparr>
   \<and> active_device (stub_state Cpu) = Some ''cpu''"
  by (simp add: load_model_stub health_check_def stub_state_def active_device_def
      default_config_sel)

text \<open>
  C10, amended. A health query while the model is not loaded is answered with 503. After
  \<open>load_model\<close> has succeeded it reports \<open>healthy\<close> with the configured model identifier
  and the configured \<open>DEVICE\<close> string; the checkpoint itself runs on \<open>cuda\<close> when \<open>DEVICE\<close>
  is \<open>cuda\<close> and the accelerator is available, and on \<open>cpu\<close> otherwise.
\<close>

theorem health_check_before_and_after_load:
  assumes "model st0 = None" and "load_model h cfg st0 = Inr st"
  shows "health_check st0 cfg = Inl (HTTPException 503 ''Model not loaded'')
         \<and> status_code (health_check st0 cfg) = 503
         \<and> health_check st cfg =
             Inr \<lparr>status = ''healthy'', health_model = NLI_MODEL cfg, device = DEVICE cfg\<rparr>
         \<and> active_device st =
             Some (if DEVICE cfg = ''cuda'' \<and> cuda_is_available h then ''cuda'' else ''cpu'')"
  using assms
  by (auto simp add: health_check_def load_model_def active_device_def cuda_def Let_def
      split: sum.splits)

theorem health_check_before_and_after_load_witness:
  "model (initial_state :: stub_enc service_state) = None
   \<and> load_model (stub_hub True) (default_config\<lparr>DEVICE := ''cuda''\<rparr>) initial_state
       = Inr (stub_state Cuda)
   \<and> status_code (health_check (initial_state :: stub_enc service_state)
        (default_config\<lparr>DEVICE := ''cuda''\<rparr>)) = 503
   \<and> health_check (stub_state Cuda) (default_config\<lparr>DEVICE := ''cuda''\<rparr>) =
       Inr \<lparr>status = ''healthy'', health_model = ''microsoft/deberta-v3-large-mnli'',
            device = ''cuda''\<rparr>
   \<and> active_device (stub_state Cuda) = Some ''cuda''"
proof -
  have a: "model (initial_state :: stub_enc service_state) = None"
    by (simp add: initial_state_def)
  have b: "load_model (stub_hub True) (default_config\<lparr>DEVICE := ''cuda''\<rparr>) initial_state
             = Inr (stub_state Cuda)"
    by (simp add: load_model_stub)
  show ?thesis
    using a b health_check_before_and_after_load [OF a b]
    by (simp add: default_config_sel stub_hub_def)
qed

subsection \<open>What the reply depends on\<close>

text \<open>
  C9. The handler computes its reply from the pair list, the loaded state and the
  configuration only: two requests with the same pairs get the same reply (and cause the
  same compute) whatever their \<open>model\<close> fields say, also when they arrive at different
  moments of one process.
\<close>

theorem classify_nli_ignores_model_field:
  assumes "pairs r1 = pairs r2"
    and "lifespan h cfg reqs = Inr reps"
    and "i < length reqs" and "j < length reqs"
    and "reqs ! i = Nli r1" and "reqs ! j = Nli r2"
  shows "classify_nli st cfg r1 = classify_nli st cfg r2 \<and> reps ! i = reps ! j"
proof -
  have here: "classify_nli st cfg r1 = classify_nli st cfg r2"
    using assms(1) unfolding classify_nli_def by (simp split: option.splits)
  obtain s where "load_model h cfg initial_state = Inr s"
    and s: "reps = map (handle s cfg) reqs"
    using assms(2) by (auto simp add: lifespan_def split: sum.splits)
  have there: "classify_nli s cfg r1 = classify_nli s cfg r2"
    using assms(1) unfolding classify_nli_def by (simp split: option.splits)
  have "reps ! i = handle s cfg (Nli r1)" "reps ! j = handle s cfg (Nli r2)"
    using s assms(3-6) by simp_all
  then show ?thesis using here there by simp
qed

theorem classify_nli_ignores_model_field_witness:
  "pairs \<lparr>pairs = [\<lparr>premise = ''a'', hypothesis = ''bc''\<rparr>], req_model = None\<rparr>
     = pairs \<lparr>pairs = [\<lparr>premise = ''a'', hypothesis = ''bc''\<rparr>], req_model = Some ''x''\<rparr>
   \<and> lifespan (stub_hub False) default_config
       [Nli \<lparr>pairs = [\<lparr>premise = ''a'', hypothesis = ''bc''\<rparr>], req_model = None\<rparr>, Health,
        Nli \<lparr>pairs = [\<lparr>premise = ''a'', hypothesis = ''bc''\<rparr>], req_model = Some ''x''\<rparr>]
     = Inr (map (handle (stub_state Cpu) default_config)
       [Nli \<lparr>pairs = [\<lparr>premise = ''a'', hypothesis = ''bc''\<rparr>], req_model = None\<rparr>, Health,
        Nli \<lparr>pairs = [\<lparr>premise = ''a'', hypothesis = ''bc''\<rparr>], req_model = Some ''x''\<rparr>])
   \<and> classify_nli (stub_state Cpu) default_config
       \<lparr>pairs = [\<lparr>premise = ''a'', hypothesis = ''bc''\<rparr>], req_model = None\<rparr>
     = classify_nli (stub_state Cpu) default_config
       \<lparr>pairs = [\<lparr>premise = ''a'', hypothesis = ''bc''\<rparr>], req_model = Some ''x''\<rparr>"
proof -
  let ?r1 = "\<lparr>pairs = [\<lparr>premise = ''a'', hypothesis = ''bc''\<rparr>], req_model = None\<rparr>"
  let ?r2 = "\<lparr>pairs = [\<lparr>premise = ''a'', hypothesis = ''bc''\<rparr>], req_model = Some ''x''\<rparr>"
  let ?reqs = "[Nli ?r1, Health, Nli ?r2]"
  have a: "pairs ?r1 = pairs ?r2" by simp
  have b: "lifespan (stub_hub False) default_config ?reqs
             = Inr (map (handle (stub_state Cpu) default_config) ?reqs)"
    using load_model_stub [of False "''cpu''"]
    by (simp add: lifespan_def default_config_def)
  have c: "0 < length ?reqs" "2 < length ?reqs" "?reqs ! 0 = Nli ?r1" "?reqs ! 2 = Nli ?r2"
    by simp_all
  show ?thesis
    using a b classify_nli_ignores_model_field [OF a b c, of "stub_state Cpu"]
    by simp
qed

end
